theory Spec2Isabelle
  imports Main
begin

section \<open>JavaScript values\<close>

text \<open>
  The values the wrappers handle: JSON data, \<open>undefined\<close>, and functions (a function is
  known by an identifier; calling it is recorded as an event). Numbers are modelled as
  integers. An object is the list of its own properties in insertion order.
\<close>

datatype jsval =
    JUndefined
  | JNull
  | JBool bool
  | JNum int
  | JStr string
  | JArr "jsval list"
  | JObj "(string \<times> jsval) list"
  | JFun nat

text \<open>The truthiness test of \<open>if (v)\<close>, \<open>!v\<close>, \<open>a && b\<close> and \<open>c ? a : b\<close>.\<close>

fun truthy :: "jsval \<Rightarrow> bool" where
  "truthy JUndefined = False"
| "truthy JNull = False"
| "truthy (JBool b) = b"
| "truthy (JNum n) = (n \<noteq> 0)"
| "truthy (JStr s) = (s \<noteq> [])"
| "truthy (JArr xs) = True"
| "truthy (JObj kvs) = True"
| "truthy (JFun f) = True"

datatype error = TypeError | SyntaxError | CallbackRequired string

text \<open>
  Property read \<open>v.p\<close>: a TypeError on \<open>undefined\<close> and \<open>null\<close>, the property's value on
  an object that has it, \<open>undefined\<close> everywhere else. (The sources read data properties
  only, never a built-in one such as \<open>length\<close>.)
\<close>

fun get_prop :: "jsval \<Rightarrow> string \<Rightarrow> error + jsval" where
  "get_prop JUndefined p = Inl TypeError"
| "get_prop JNull p = Inl TypeError"
| "get_prop (JObj kvs) p = Inr (case map_of kvs p of Some v \<Rightarrow> v | None \<Rightarrow> JUndefined)"
| "get_prop v p = Inr JUndefined"

section \<open>Profile (src/core/security/Profile.ts)\<close>

text \<open>
  An own property of the Profile instance: its value and its \<open>enumerable\<close> attribute.
  \<open>Reflect.defineProperty(this, '_kuzzle', {value: kuzzle})\<close> leaves every attribute it
  does not name at false; the plain assignments of the constructor create enumerable
  properties. The session reference is of an arbitrary type \<open>'k\<close>.
\<close>

datatype 'k pval = Session_ref 'k | Plain jsval

record 'k own_property =
  p_value :: "'k pval"
  p_enumerable :: bool

type_synonym 'k profile = "(string \<times> 'k own_property) list"

text \<open>
  \<open>content && content.rateLimit ? content.rateLimit : 0\<close>: \<open>&&\<close> yields its left operand
  when that is falsy and never reads the property then.
\<close>

definition content_field :: "jsval \<Rightarrow> string \<Rightarrow> jsval \<Rightarrow> jsval" where
  "content_field content p dflt =
     (if \<not> truthy content then dflt
      else case get_prop content p of
             Inl e \<Rightarrow> dflt
           | Inr v \<Rightarrow> if truthy v then v else dflt)"

text \<open>A parameter default \<open>p = d\<close>: taken when the argument is \<open>undefined\<close>.\<close>

definition default_arg :: "jsval \<Rightarrow> jsval \<Rightarrow> jsval" where
  "default_arg v d = (if v = JUndefined then d else v)"

definition Profile :: "'k \<Rightarrow> jsval \<Rightarrow> jsval \<Rightarrow> 'k profile" where
  "Profile kuzzle p_id content =
     (let p_id = default_arg p_id JNull;
          content = default_arg content JNull
      in [(''_kuzzle'', \<lparr>p_value = Session_ref kuzzle, p_enumerable = False\<rparr>),
          (''_id'', \<lparr>p_value = Plain p_id, p_enumerable = True\<rparr>),
          (''rateLimit'', \<lparr>p_value = Plain (content_field content ''rateLimit'' (JNum 0)),
                          p_enumerable = True\<rparr>),
          (''policies'', \<lparr>p_value = Plain (content_field content ''policies'' (JArr [])),
                         p_enumerable = True\<rparr>)])"

text \<open>The protected accessor \<open>get kuzzle ()\<close>: \<open>this._kuzzle\<close>.\<close>

definition profile_kuzzle :: "'k profile \<Rightarrow> 'k pval option" where
  "profile_kuzzle this = map_option p_value (map_of this ''_kuzzle'')"

text \<open>\<open>this.f\<close> for a data field: \<open>undefined\<close> when the property is missing.\<close>

definition profile_field :: "'k profile \<Rightarrow> string \<Rightarrow> jsval" where
  "profile_field this f =
     (case map_of this f of
        Some pr \<Rightarrow> (case p_value pr of Plain v \<Rightarrow> v | Session_ref k \<Rightarrow> JUndefined)
      | None \<Rightarrow> JUndefined)"

text \<open>The names a \<open>for...in\<close> loop, \<open>Object.keys\<close> or \<open>JSON.stringify\<close> see.\<close>

definition enumerable_keys :: "'k profile \<Rightarrow> string list" where
  "enumerable_keys this = map fst (filter (\<lambda>(k, pr). p_enumerable pr) this)"

definition serialize :: "'k profile \<Rightarrow> jsval" where
  "serialize this =
     JObj [(''_id'', profile_field this ''_id''),
           (''rateLimit'', profile_field this ''rateLimit''),
           (''policies'', profile_field this ''policies'')]"

text \<open>The property names of an object value.\<close>

fun keys_of :: "jsval \<Rightarrow> string list" where
  "keys_of (JObj kvs) = map fst kvs"
| "keys_of v = []"

section \<open>The session and the wrapper objects\<close>

text \<open>
  Objects with an identity live in a store. A session holds a reference to its headers
  object and may carry a bluebird handle; a headers object holds its own properties; a
  KuzzleDataCollection instance holds its three properties \<open>collection\<close>, \<open>kuzzle\<close> (a
  reference to the session) and \<open>headers\<close> (a reference to a headers object), and the
  names of the methods that promisification added to it.
\<close>

type_synonym addr = nat

type_synonym fields = "(string \<times> jsval) list"

datatype cell =
    Session (s_headers: addr) (s_bluebird: bool)
  | HeadersObj (h_fields: fields)
  | Collection (c_collection: string) (c_kuzzle: addr) (c_headers: addr)
      (c_promisified: "string list")

text \<open>
  A KuzzleDocument instance. The constructor is not among the sources: an instance is
  the record of the constructor's three arguments, with the \<open>version\<close> property that
  \<open>documentFactory\<close> assigns afterwards (None while unassigned).
\<close>

record kdoc =
  d_collection :: addr
  d_id :: jsval
  d_content :: jsval
  d_version :: "jsval option"

text \<open>The \<open>document\<close> argument: \<open>document instanceof KuzzleDocument\<close> or any other value.\<close>

datatype document = Instance kdoc | Other jsval

text \<open>
  What a function passed to \<open>kuzzle.query\<close> is: the caller's own value handed over as it
  is, or one of the closures the wrapper builds around the caller's \<open>cb\<close>, with the
  variables it captures.
\<close>

datatype callback =
    Passed jsval
  | SearchCb jsval addr
  | CountCb jsval
  | DocumentCb jsval addr
  | DeleteCb jsval string fields
  | UpdateCb jsval addr

record query_call =
  q_session :: addr
  q_request :: nat
  q_collection :: string
  q_controller :: string
  q_action :: string
  q_data :: fields
  q_options :: jsval
  q_cb :: callback

text \<open>An argument a callback is called with, and the event of calling the function \<open>f\<close>.\<close>

datatype cbarg = Value jsval | DocumentArg kdoc | SearchResult jsval "kdoc list"

datatype event = Called nat "cbarg list"

text \<open>
  The calls made on KuzzleDataMapping objects, whose class is not among the sources:
  \<open>new KuzzleDataMapping(this).refresh(options, cb)\<close> and
  \<open>new KuzzleDataMapping(this, mapping).apply(options, cb)\<close> are recorded as calls.
\<close>

datatype mapping_call =
    MappingRefresh addr jsval jsval
  | MappingApply addr jsval jsval jsval

text \<open>
  Modelled from the spec: the rooms of the subscription registry (sections 3 and 4.4).
  A room id is derived from the collection, the filters and the subscribe-to-self flag:
  it is that triple. A room holds its callback set (callback id and handler, in
  registration order), its state and the channel the backend assigned.
\<close>

datatype room_state = SUBSCRIBING | ACTIVE | RESUBSCRIBING | CANCELLED

type_synonym room_id = "string \<times> jsval \<times> bool"

record room =
  r_callbacks :: "(nat \<times> jsval) list"
  r_state :: room_state
  r_channel :: "string option"

datatype net_call = NetSubscribe room_id | NetUnsubscribe room_id

text \<open>A KuzzleRoom object: the room handle that \<open>subscribe\<close> returns.\<close>

record kuzzle_room =
  kr_collection :: string
  kr_self_notify :: bool
  kr_subscription :: "(room_id \<times> nat) option"

text \<open>
  The state: the store with its allocation pointer; the calls made to the session's
  \<open>query\<close> and to KuzzleDataMapping objects, in order; the tracker's pending requests
  by request id; the registry's rooms, the network subscribe and unsubscribe calls issued,
  and the next callback id.
\<close>

record state =
  heap :: "addr \<Rightarrow> cell option"
  next_addr :: addr
  queries :: "query_call list"
  mapping_calls :: "mapping_call list"
  pending :: "nat \<Rightarrow> callback option"
  next_request :: nat
  rooms :: "(room_id \<times> room) list"
  network :: "net_call list"
  next_callback :: nat

text \<open>
  Functions of the session and of its collaborators that the wrapper calls and that are
  not among the sources, taken as parameters: \<open>kuzzle.addHeaders(query, headers)\<close>,
  \<open>document.toJSON()\<close>, the verdict of bluebird's default filter on a method name (the
  \<open>passes\<close> argument of the filter the constructor installs), and how a KuzzleRoom reads
  the subscribe-to-self flag from its options.
\<close>

record api =
  addHeaders :: "fields \<Rightarrow> fields \<Rightarrow> fields"
  toJSON :: "kdoc \<Rightarrow> fields"
  default_filter :: "string \<Rightarrow> bool"
  subscribeToSelf :: "jsval \<Rightarrow> bool"

datatype retval = This addr | RoomRet kuzzle_room | DocRet kdoc | MappingRet addr jsval

subsection \<open>Helpers\<close>

fun is_function :: "jsval \<Rightarrow> bool" where
  "is_function (JFun f) = True"
| "is_function v = False"

text \<open>\<open>obj[k] = v\<close> on an object's own properties.\<close>

fun put :: "'k \<Rightarrow> 'v \<Rightarrow> ('k \<times> 'v) list \<Rightarrow> ('k \<times> 'v) list" where
  "put k v [] = [(k, v)]"
| "put k v ((k', v') # kvs) = (if k = k' then (k, v) # kvs else (k', v') # put k v kvs)"

text \<open>The idiom \<open>if (!cb && typeof options === 'function') { cb = options; options = null; }\<close>.\<close>

definition shift_cb :: "jsval \<Rightarrow> jsval \<Rightarrow> jsval \<times> jsval" where
  "shift_cb options cb =
     (if \<not> truthy cb \<and> is_function options then (JNull, options) else (options, cb))"

text \<open>The properties of \<open>this\<close> when it is a KuzzleDataCollection instance.\<close>

definition this_collection :: "state \<Rightarrow> addr \<Rightarrow> (string \<times> addr \<times> addr) option" where
  "this_collection st self =
     (case heap st self of
        Some (Collection name k h ms) \<Rightarrow> Some (name, k, h)
      | _ \<Rightarrow> None)"

definition headers_at :: "state \<Rightarrow> addr \<Rightarrow> fields" where
  "headers_at st h = (case heap st h of Some (HeadersObj kvs) \<Rightarrow> kvs | _ \<Rightarrow> [])"

text \<open>Calling a value: an event when it is a function, a TypeError otherwise.\<close>

fun invoke :: "jsval \<Rightarrow> cbarg list \<Rightarrow> error + event list" where
  "invoke (JFun f) args = Inr [Called f args]"
| "invoke v args = Inl TypeError"

text \<open>
  Modelled from the spec: the session's \<open>callbackRequired(name, cb)\<close> is not among the
  sources. The wrapper calls it where a callback is mandatory; it fails when the callback
  is missing or is not a function.
\<close>

definition callbackRequired :: "string \<Rightarrow> jsval \<Rightarrow> error + unit" where
  "callbackRequired name cb =
     (if \<not> truthy cb \<or> \<not> is_function cb then Inl (CallbackRequired name) else Inr ())"

text \<open>
  Modelled from the spec: the session's \<open>query(collection, controller, action, payload,
  options, callback)\<close> is not among the sources. It routes through the RequestTracker,
  whose \<open>send\<close> assigns a request id and records a pending request with its (nullable)
  callback. The call itself is recorded; the connection state and the offline queue are
  left out.
\<close>

definition kuzzle_query ::
  "addr \<Rightarrow> string \<Rightarrow> string \<Rightarrow> string \<Rightarrow> fields \<Rightarrow> jsval \<Rightarrow> callback \<Rightarrow> state \<Rightarrow> state" where
  "kuzzle_query k coll controller action data options cb st =
     st\<lparr>queries := queries st @
           [\<lparr>q_session = k, q_request = next_request st, q_collection = coll,
             q_controller = controller, q_action = action, q_data = data,
             q_options = options, q_cb = cb\<rparr>],
        pending := (pending st)(next_request st \<mapsto> cb),
        next_request := Suc (next_request st)\<rparr>"

section \<open>KuzzleDataCollection (src/unnamed/part_001)\<close>

subsection \<open>The constructor\<close>

text \<open>
  \<open>JSON.parse(JSON.stringify(v))\<close>: a structurally equal value in fresh objects. A
  property holding \<open>undefined\<close> or a function is dropped, such an array element becomes
  \<open>null\<close>.
\<close>

fun json_clone :: "jsval \<Rightarrow> jsval"
  and clone_fields :: "fields \<Rightarrow> fields"
  and clone_items :: "jsval list \<Rightarrow> jsval list" where
  "json_clone (JObj kvs) = JObj (clone_fields kvs)"
| "json_clone (JArr xs) = JArr (clone_items xs)"
| "json_clone JUndefined = JUndefined"
| "json_clone JNull = JNull"
| "json_clone (JBool b) = JBool b"
| "json_clone (JNum n) = JNum n"
| "json_clone (JStr s) = JStr s"
| "json_clone (JFun f) = JUndefined"
| "clone_fields [] = []"
| "clone_fields ((k, v) # kvs) =
     (if v = JUndefined \<or> is_function v then clone_fields kvs
      else (k, json_clone v) # clone_fields kvs)"
| "clone_items [] = []"
| "clone_items (x # xs) =
     (if x = JUndefined \<or> is_function x then JNull else json_clone x) # clone_items xs"

text \<open>The function-valued properties of \<open>KuzzleDataCollection.prototype\<close>, as assigned.\<close>

definition prototype_methods :: "string list" where
  "prototype_methods =
     [''advancedSearch'', ''count'', ''create'', ''createDocument'', ''delete'',
      ''deleteDocument'', ''fetchDocument'', ''fetchAllDocuments'', ''getMapping'',
      ''publish'', ''putMapping'', ''replaceDocument'', ''subscribe'', ''truncate'',
      ''updateDocument'', ''documentFactory'', ''roomFactory'', ''dataMappingFactory'',
      ''setHeaders'']"

definition blacklist :: "string list" where
  "blacklist = [''publish'', ''setHeaders'', ''subscribe'']"

text \<open>The \<open>filter\<close> option: \<open>passes && blacklist.indexOf(name) === -1\<close>.\<close>

definition promisify_filter :: "string \<Rightarrow> bool \<Rightarrow> bool" where
  "promisify_filter name passes = (passes \<and> name \<notin> set blacklist)"

text \<open>
  bluebird's \<open>promisifyAll(target, {suffix, filter})\<close>, an external library: for every
  function-valued property of the target that the filter accepts it adds a property
  named with the suffix, and returns the target. The result is the list of added names.
\<close>

definition promisifyAll :: "api \<Rightarrow> string list \<Rightarrow> string list" where
  "promisifyAll api methods =
     map (\<lambda>n. n @ ''Promise'')
       (filter (\<lambda>n. promisify_filter n (default_filter api n)) methods)"

text \<open>
  \<open>new KuzzleDataCollection(kuzzle, collection)\<close>: allocates the instance and the copy of
  \<open>kuzzle.headers\<close>. Reading \<open>headers\<close> of something that is no session is a TypeError;
  \<open>JSON.parse\<close> of a missing headers object is a SyntaxError.
\<close>

definition KuzzleDataCollection :: "api \<Rightarrow> addr \<Rightarrow> string \<Rightarrow> state \<Rightarrow> error + addr \<times> state" where
  "KuzzleDataCollection api kuzzle collection st =
     (case heap st kuzzle of
        Some (Session hk bluebird) \<Rightarrow>
          (case heap st hk of
             Some (HeadersObj kvs) \<Rightarrow>
               let self = next_addr st;
                   h = Suc (next_addr st);
                   added = (if bluebird then promisifyAll api prototype_methods else [])
               in Inr (self,
                    st\<lparr>heap := (heap st)(h \<mapsto> HeadersObj (clone_fields kvs),
                                          self \<mapsto> Collection collection kuzzle h added),
                       next_addr := Suc (Suc (next_addr st))\<rparr>)
           | _ \<Rightarrow> Inl SyntaxError)
      | _ \<Rightarrow> Inl TypeError)"

text \<open>The method names an instance answers to: the prototype's and its own.\<close>

definition methods_of :: "state \<Rightarrow> addr \<Rightarrow> string list" where
  "methods_of st self =
     (case heap st self of
        Some (Collection name k h added) \<Rightarrow> prototype_methods @ added
      | _ \<Rightarrow> [])"

subsection \<open>The closures handed to the session\<close>

definition documentFactory :: "addr \<Rightarrow> jsval \<Rightarrow> jsval \<Rightarrow> error + kdoc" where
  "documentFactory self i content =
     (case get_prop content ''_source'' of
        Inl e \<Rightarrow> Inl e
      | Inr src \<Rightarrow>
          let document =
                (if truthy src
                 then \<lparr>d_collection = self, d_id = i, d_content = src, d_version = None\<rparr>
                 else \<lparr>d_collection = self, d_id = i, d_content = content, d_version = None\<rparr>)
          in (case get_prop content ''_version'' of
                Inl e \<Rightarrow> Inl e
              | Inr v \<Rightarrow> Inr (if truthy v then document\<lparr>d_version := Some v\<rparr> else document)))"

text \<open>\<open>xs.forEach\<close>: only an array has it.\<close>

fun array_items :: "jsval \<Rightarrow> error + jsval list" where
  "array_items (JArr xs) = Inr xs"
| "array_items v = Inl TypeError"

text \<open>The loop \<open>documents.push(self.documentFactory(doc._id, doc))\<close> over the hits.\<close>

fun search_documents :: "addr \<Rightarrow> jsval list \<Rightarrow> error + kdoc list" where
  "search_documents self [] = Inr []"
| "search_documents self (doc # docs) =
     (case get_prop doc ''_id'' of
        Inl e \<Rightarrow> Inl e
      | Inr i \<Rightarrow>
          (case documentFactory self i doc of
             Inl e \<Rightarrow> Inl e
           | Inr d \<Rightarrow>
               (case search_documents self docs of
                  Inl e \<Rightarrow> Inl e
                | Inr ds \<Rightarrow> Inr (d # ds))))"

text \<open>
  What a function handed to \<open>query\<close> does when the session calls it with
  \<open>(error, result)\<close>: the events it causes, or the exception it throws. A callback the
  caller left out (\<open>undefined\<close> or \<open>null\<close>) is never called.
\<close>

fun deliver :: "callback \<Rightarrow> jsval \<Rightarrow> jsval \<Rightarrow> error + event list" where
  "deliver (Passed cb) err res =
     (if cb = JUndefined \<or> cb = JNull then Inr [] else invoke cb [Value err, Value res])"
| "deliver (SearchCb cb self) err res =
     (if truthy err then invoke cb [Value err]
      else case get_prop res ''hits'' of
             Inl e \<Rightarrow> Inl e
           | Inr h \<Rightarrow>
               (case get_prop h ''hits'' of
                  Inl e \<Rightarrow> Inl e
                | Inr hs \<Rightarrow>
                    (case array_items hs of
                       Inl e \<Rightarrow> Inl e
                     | Inr docs \<Rightarrow>
                         (case search_documents self docs of
                            Inl e \<Rightarrow> Inl e
                          | Inr documents \<Rightarrow>
                              (case get_prop h ''total'' of
                                 Inl e \<Rightarrow> Inl e
                               | Inr tot \<Rightarrow>
                                   invoke cb [Value JNull, SearchResult tot documents])))))"
| "deliver (CountCb cb) err res =
     (if truthy err then invoke cb [Value err]
      else case get_prop res ''count'' of
             Inl e \<Rightarrow> Inl e
           | Inr n \<Rightarrow> invoke cb [Value JNull, Value n])"
| "deliver (DocumentCb cb self) err res =
     (if truthy err then invoke cb [Value err]
      else case get_prop res ''_id'' of
             Inl e \<Rightarrow> Inl e
           | Inr i \<Rightarrow>
               (case documentFactory self i res of
                  Inl e \<Rightarrow> Inl e
                | Inr d \<Rightarrow> invoke cb [Value JNull, DocumentArg d]))"
| "deliver (DeleteCb cb action data) err res =
     (if truthy err then invoke cb [Value err]
      else if action = ''delete''
      then invoke cb [Value JNull,
             Value (JArr [case map_of data ''_id'' of Some i \<Rightarrow> i | None \<Rightarrow> JUndefined])]
      else case get_prop res ''ids'' of
             Inl e \<Rightarrow> Inl e
           | Inr ids \<Rightarrow> invoke cb [Value JNull, Value ids])"
| "deliver (UpdateCb cb self) err res =
     (if truthy err then invoke cb [Value err]
      else case get_prop res ''_id'' of
             Inl e \<Rightarrow> Inl e
           | Inr i \<Rightarrow>
               invoke cb [Value JNull,
                 DocumentArg \<lparr>d_collection = self, d_id = i, d_content = JUndefined,
                              d_version = None\<rparr>])"

subsection \<open>The subscription registry\<close>

text \<open>
  Modelled from the spec: the class KuzzleRoom (its constructor, \<open>renew\<close> and
  \<open>unsubscribe\<close>) is not among the sources. Section 4.4 of the spec: \<open>subscribe\<close>
  computes the room id, derived from the collection, the filters and the
  subscribe-to-self flag (here the triple itself); if a room with that id exists and is
  ACTIVE it adds the handler to its callback set and returns, with no network call;
  otherwise it creates a room in SUBSCRIBING and issues exactly one network subscribe
  call.
\<close>

definition registry_subscribe ::
  "string \<Rightarrow> jsval \<Rightarrow> bool \<Rightarrow> jsval \<Rightarrow> state \<Rightarrow> (room_id \<times> nat) \<times> state" where
  "registry_subscribe coll filters selfNotify handler st =
     (let rid = (coll, filters, selfNotify);
          cid = next_callback st;
          created =
            st\<lparr>rooms := put rid \<lparr>r_callbacks = [(cid, handler)], r_state = SUBSCRIBING,
                                   r_channel = None\<rparr> (rooms st),
               network := network st @ [NetSubscribe rid],
               next_callback := Suc cid\<rparr>
      in case map_of (rooms st) rid of
           None \<Rightarrow> ((rid, cid), created)
         | Some r \<Rightarrow>
             if r_state r = ACTIVE
             then ((rid, cid),
                   st\<lparr>rooms := put rid (r\<lparr>r_callbacks := r_callbacks r @ [(cid, handler)]\<rparr>)
                                  (rooms st),
                      next_callback := Suc cid\<rparr>)
             else ((rid, cid), created))"

text \<open>
  Modelled from the spec (section 4.4): on the backend's acknowledgment the room becomes
  ACTIVE and records the channel the backend assigned.
\<close>

definition registry_ack :: "room_id \<Rightarrow> string \<Rightarrow> state \<Rightarrow> state" where
  "registry_ack rid channel st =
     (case map_of (rooms st) rid of
        None \<Rightarrow> st
      | Some r \<Rightarrow>
          st\<lparr>rooms := put rid (r\<lparr>r_state := ACTIVE, r_channel := Some channel\<rparr>) (rooms st)\<rparr>)"

text \<open>
  Modelled from the spec (section 4.4): \<open>unsubscribe(roomId, callbackId)\<close> removes one
  callback; if the set becomes empty it issues a network unsubscribe and discards the
  room.
\<close>

definition registry_unsubscribe :: "room_id \<Rightarrow> nat \<Rightarrow> state \<Rightarrow> state" where
  "registry_unsubscribe rid cid st =
     (case map_of (rooms st) rid of
        None \<Rightarrow> st
      | Some r \<Rightarrow>
          let cbs = filter (\<lambda>(c, h). c \<noteq> cid) (r_callbacks r)
          in if cbs = []
             then st\<lparr>rooms := filter (\<lambda>(i, r'). i \<noteq> rid) (rooms st),
                     network := network st @ [NetUnsubscribe rid]\<rparr>
             else st\<lparr>rooms := put rid (r\<lparr>r_callbacks := cbs\<rparr>) (rooms st)\<rparr>)"

text \<open>
  Modelled from the spec (section 4.5): the router looks up the room whose channel
  matches; if it is found and ACTIVE every registered handler is called with the payload,
  in registration order, a failing handler not stopping the others; without a matching
  room the notification is dropped.
\<close>

definition notify :: "string \<Rightarrow> jsval \<Rightarrow> state \<Rightarrow> event list" where
  "notify channel payload st =
     (case find (\<lambda>(rid, r). r_channel r = Some channel) (rooms st) of
        None \<Rightarrow> []
      | Some (rid, r) \<Rightarrow>
          if r_state r = ACTIVE
          then concat (map (\<lambda>(cid, h). case invoke h [Value payload] of
                                           Inl e \<Rightarrow> []
                                         | Inr es \<Rightarrow> es)
                        (r_callbacks r))
          else [])"

text \<open>
  Modelled from the spec: \<open>new KuzzleRoom(collection, options)\<close> makes a room handle
  that is not subscribed yet; \<open>room.renew(filters, cb)\<close> subscribes it through the
  registry and returns the handle; \<open>room.unsubscribe()\<close> cancels that subscription.
\<close>

definition new_KuzzleRoom :: "api \<Rightarrow> string \<Rightarrow> jsval \<Rightarrow> kuzzle_room" where
  "new_KuzzleRoom api coll options =
     \<lparr>kr_collection = coll, kr_self_notify = subscribeToSelf api options,
      kr_subscription = None\<rparr>"

definition room_renew :: "kuzzle_room \<Rightarrow> jsval \<Rightarrow> jsval \<Rightarrow> state \<Rightarrow> kuzzle_room \<times> state" where
  "room_renew room filters cb st =
     (case registry_subscribe (kr_collection room) filters (kr_self_notify room) cb st of
        (sub, st') \<Rightarrow> (room\<lparr>kr_subscription := Some sub\<rparr>, st'))"

definition room_unsubscribe :: "kuzzle_room \<Rightarrow> state \<Rightarrow> state" where
  "room_unsubscribe room st =
     (case kr_subscription room of
        None \<Rightarrow> st
      | Some (rid, cid) \<Rightarrow> registry_unsubscribe rid cid st)"

subsection \<open>The request tracker\<close>

text \<open>
  Modelled from the spec (section 4.2): the RequestTracker is not among the sources. On
  a response matching a pending request by its id, and on its timeout, the tracker
  removes the pending request and calls its callback once; a response for an id that is
  not pending is a no-op. The result lists, for each request resolved, what its callback
  did.
\<close>

datatype tracker_event = Response nat jsval jsval | Timeout nat

definition timeout_error :: jsval where
  "timeout_error = JObj [(''message'', JStr ''TimeoutError'')]"

definition tracker_resolve ::
  "nat \<Rightarrow> jsval \<Rightarrow> jsval \<Rightarrow> state \<Rightarrow> (nat \<times> (error + event list)) list \<times> state" where
  "tracker_resolve rid err res st =
     (case pending st rid of
        None \<Rightarrow> ([], st)
      | Some k \<Rightarrow> ([(rid, deliver k err res)], st\<lparr>pending := (pending st)(rid := None)\<rparr>))"

fun tracker_step ::
  "tracker_event \<Rightarrow> state \<Rightarrow> (nat \<times> (error + event list)) list \<times> state" where
  "tracker_step (Response rid err res) st = tracker_resolve rid err res st"
| "tracker_step (Timeout rid) st = tracker_resolve rid timeout_error JUndefined st"

fun tracker_run ::
  "tracker_event list \<Rightarrow> state \<Rightarrow> (nat \<times> (error + event list)) list \<times> state" where
  "tracker_run [] st = ([], st)"
| "tracker_run (ev # evs) st =
     (case tracker_step ev st of
        (out, st') \<Rightarrow> (case tracker_run evs st' of (outs, st'') \<Rightarrow> (out @ outs, st'')))"


subsection \<open>The prototype's operations\<close>

text \<open>
  Each operation takes the receiver \<open>self\<close> and the state, and returns the value the
  method returns with the new state, or the exception it throws. Reading
  \<open>this.kuzzle.f\<close> on a receiver that is no collection is a TypeError.
\<close>

definition advancedSearch ::
  "api \<Rightarrow> addr \<Rightarrow> jsval \<Rightarrow> jsval \<Rightarrow> jsval \<Rightarrow> state \<Rightarrow> error + retval \<times> state" where
  "advancedSearch api self filters options cb st =
     (case shift_cb options cb of
        (options, cb) \<Rightarrow>
          (case this_collection st self of
             None \<Rightarrow> Inl TypeError
           | Some (name, k, h) \<Rightarrow>
               (case callbackRequired ''KuzzleDataCollection.advancedSearch'' cb of
                  Inl e \<Rightarrow> Inl e
                | Inr u \<Rightarrow>
                    let query = addHeaders api [(''body'', filters)] (headers_at st h)
                    in Inr (This self,
                         kuzzle_query k name ''read'' ''search'' query options
                           (SearchCb cb self) st))))"

definition count ::
  "api \<Rightarrow> addr \<Rightarrow> jsval \<Rightarrow> jsval \<Rightarrow> jsval \<Rightarrow> state \<Rightarrow> error + retval \<times> state" where
  "count api self filters options cb st =
     (case shift_cb options cb of
        (options, cb) \<Rightarrow>
          (case this_collection st self of
             None \<Rightarrow> Inl TypeError
           | Some (name, k, h) \<Rightarrow>
               (case callbackRequired ''KuzzleDataCollection.count'' cb of
                  Inl e \<Rightarrow> Inl e
                | Inr u \<Rightarrow>
                    let query = addHeaders api [(''body'', filters)] (headers_at st h)
                    in Inr (This self,
                         kuzzle_query k name ''read'' ''count'' query options (CountCb cb) st))))"

text \<open>
  \<open>create\<close>, \<open>delete\<close> and \<open>truncate\<close> differ in the controller and the action only: empty
  data with the headers, and the caller's \<open>cb\<close> handed to \<open>query\<close> as it is.
\<close>

definition plain_request ::
  "string \<Rightarrow> string \<Rightarrow> api \<Rightarrow> addr \<Rightarrow> jsval \<Rightarrow> jsval \<Rightarrow> state \<Rightarrow> error + retval \<times> state" where
  "plain_request controller action api self options cb st =
     (case shift_cb options cb of
        (options, cb) \<Rightarrow>
          (case this_collection st self of
             None \<Rightarrow> Inl TypeError
           | Some (name, k, h) \<Rightarrow>
               let data = addHeaders api [] (headers_at st h)
               in Inr (This self, kuzzle_query k name controller action data options (Passed cb) st)))"

definition create :: "api \<Rightarrow> addr \<Rightarrow> jsval \<Rightarrow> jsval \<Rightarrow> state \<Rightarrow> error + retval \<times> state" where
  "create = plain_request ''write'' ''createCollection''"

definition delete :: "api \<Rightarrow> addr \<Rightarrow> jsval \<Rightarrow> jsval \<Rightarrow> state \<Rightarrow> error + retval \<times> state" where
  "delete = plain_request ''admin'' ''deleteCollection''"

definition truncate :: "api \<Rightarrow> addr \<Rightarrow> jsval \<Rightarrow> jsval \<Rightarrow> state \<Rightarrow> error + retval \<times> state" where
  "truncate = plain_request ''admin'' ''truncateCollection''"

text \<open>\<open>options.f ? a : b\<close> on truthy options.\<close>

definition option_flag :: "jsval \<Rightarrow> string \<Rightarrow> bool" where
  "option_flag options f = (case get_prop options f of Inl e \<Rightarrow> False | Inr v \<Rightarrow> truthy v)"

text \<open>The request body of \<open>createDocument\<close> and \<open>publish\<close>, before \<open>persist\<close> is set.\<close>

definition document_data :: "api \<Rightarrow> document \<Rightarrow> fields" where
  "document_data api document =
     (case document of
        Instance d \<Rightarrow> toJSON api d
      | Other v \<Rightarrow> [(''body'', v)])"

definition createDocument ::
  "api \<Rightarrow> addr \<Rightarrow> document \<Rightarrow> jsval \<Rightarrow> jsval \<Rightarrow> state \<Rightarrow> error + retval \<times> state" where
  "createDocument api self document options cb st =
     (case shift_cb options cb of
        (options, cb) \<Rightarrow>
          let data = document_data api document;
              action = (if truthy options
                        then (if option_flag options ''updateIfExist''
                              then ''createOrUpdate'' else ''create'')
                        else ''create'');
              data = put ''persist'' (JBool True) data
          in (case this_collection st self of
                None \<Rightarrow> Inl TypeError
              | Some (name, k, h) \<Rightarrow>
                  let data = addHeaders api data (headers_at st h)
                  in if truthy cb
                     then Inr (This self,
                            kuzzle_query k name ''write'' action data options
                              (DocumentCb cb self) st)
                     else Inr (This self,
                            kuzzle_query k name ''write'' action data options
                              (Passed JUndefined) st)))"

definition deleteDocument ::
  "api \<Rightarrow> addr \<Rightarrow> jsval \<Rightarrow> jsval \<Rightarrow> jsval \<Rightarrow> state \<Rightarrow> error + retval \<times> state" where
  "deleteDocument api self arg options cb st =
     (case (case arg of
              JStr s \<Rightarrow> ([(''_id'', arg)], ''delete'')
            | _ \<Rightarrow> ([(''body'', arg)], ''deleteByQuery'')) of
        (data, action) \<Rightarrow>
          (case shift_cb options cb of
             (options, cb) \<Rightarrow>
               (case this_collection st self of
                  None \<Rightarrow> Inl TypeError
                | Some (name, k, h) \<Rightarrow>
                    let data = addHeaders api data (headers_at st h)
                    in if truthy cb
                       then Inr (This self,
                              kuzzle_query k name ''write'' action data options
                                (DeleteCb cb action data) st)
                       else Inr (This self,
                              kuzzle_query k name ''write'' action data options
                                (Passed JUndefined) st))))"

definition fetchDocument ::
  "api \<Rightarrow> addr \<Rightarrow> jsval \<Rightarrow> jsval \<Rightarrow> jsval \<Rightarrow> state \<Rightarrow> error + retval \<times> state" where
  "fetchDocument api self documentId options cb st =
     (case shift_cb options cb of
        (options, cb) \<Rightarrow>
          (case this_collection st self of
             None \<Rightarrow> Inl TypeError
           | Some (name, k, h) \<Rightarrow>
               (case callbackRequired ''KuzzleDataCollection.fetch'' cb of
                  Inl e \<Rightarrow> Inl e
                | Inr u \<Rightarrow>
                    let data = addHeaders api [(''_id'', documentId)] (headers_at st h)
                    in Inr (This self,
                         kuzzle_query k name ''read'' ''get'' data options
                           (DocumentCb cb self) st))))"

definition fetchAllDocuments ::
  "api \<Rightarrow> addr \<Rightarrow> jsval \<Rightarrow> jsval \<Rightarrow> state \<Rightarrow> error + retval \<times> state" where
  "fetchAllDocuments api self options cb st =
     (case shift_cb options cb of
        (options, cb) \<Rightarrow>
          (case this_collection st self of
             None \<Rightarrow> Inl TypeError
           | Some (name, k, h) \<Rightarrow>
               (case callbackRequired ''KuzzleDataCollection.fetchAll'' cb of
                  Inl e \<Rightarrow> Inl e
                | Inr u \<Rightarrow>
                    (case advancedSearch api self (JObj []) options cb st of
                       Inl e \<Rightarrow> Inl e
                     | Inr (r, st') \<Rightarrow> Inr (This self, st')))))"

definition getMapping ::
  "addr \<Rightarrow> jsval \<Rightarrow> jsval \<Rightarrow> state \<Rightarrow> error + retval \<times> state" where
  "getMapping self options cb st =
     (case shift_cb options cb of
        (options, cb) \<Rightarrow>
          (case this_collection st self of
             None \<Rightarrow> Inl TypeError
           | Some (name, k, h) \<Rightarrow>
               (case callbackRequired ''KuzzleDataCollection.getMapping'' cb of
                  Inl e \<Rightarrow> Inl e
                | Inr u \<Rightarrow>
                    Inr (This self,
                      st\<lparr>mapping_calls := mapping_calls st @ [MappingRefresh self options cb]\<rparr>))))"

definition publish ::
  "api \<Rightarrow> addr \<Rightarrow> document \<Rightarrow> jsval \<Rightarrow> state \<Rightarrow> error + retval \<times> state" where
  "publish api self document options st =
     (let data = document_data api document;
          data = put ''persist'' (JBool False) data
      in case this_collection st self of
           None \<Rightarrow> Inl TypeError
         | Some (name, k, h) \<Rightarrow>
             let data = addHeaders api data (headers_at st h)
             in Inr (This self,
                  kuzzle_query k name ''write'' ''create'' data options (Passed JUndefined) st))"

definition putMapping ::
  "addr \<Rightarrow> jsval \<Rightarrow> jsval \<Rightarrow> jsval \<Rightarrow> state \<Rightarrow> error + retval \<times> state" where
  "putMapping self mapping options cb st =
     (case shift_cb options cb of
        (options, cb) \<Rightarrow>
          Inr (This self,
            st\<lparr>mapping_calls := mapping_calls st @ [MappingApply self mapping options cb]\<rparr>))"

definition replaceDocument ::
  "api \<Rightarrow> addr \<Rightarrow> jsval \<Rightarrow> jsval \<Rightarrow> jsval \<Rightarrow> jsval \<Rightarrow> state \<Rightarrow> error + retval \<times> state" where
  "replaceDocument api self documentId content options cb st =
     (case shift_cb options cb of
        (options, cb) \<Rightarrow>
          (case this_collection st self of
             None \<Rightarrow> Inl TypeError
           | Some (name, k, h) \<Rightarrow>
               let data = addHeaders api [(''_id'', documentId), (''body'', content)]
                            (headers_at st h)
               in if truthy cb
                  then Inr (This self,
                         kuzzle_query k name ''write'' ''createOrUpdate'' data options
                           (DocumentCb cb self) st)
                  else Inr (This self,
                         kuzzle_query k name ''write'' ''createOrUpdate'' data options
                           (Passed JUndefined) st)))"

definition subscribe ::
  "api \<Rightarrow> addr \<Rightarrow> jsval \<Rightarrow> jsval \<Rightarrow> jsval \<Rightarrow> state \<Rightarrow> error + retval \<times> state" where
  "subscribe api self filters cb options st =
     (case this_collection st self of
        None \<Rightarrow> Inl TypeError
      | Some (name, k, h) \<Rightarrow>
          (case callbackRequired ''KuzzleDataCollection.subscribe'' cb of
             Inl e \<Rightarrow> Inl e
           | Inr u \<Rightarrow>
               let room = new_KuzzleRoom api name options
               in (case room_renew room filters cb st of
                     (room', st') \<Rightarrow> Inr (RoomRet room', st'))))"

definition updateDocument ::
  "api \<Rightarrow> addr \<Rightarrow> jsval \<Rightarrow> jsval \<Rightarrow> jsval \<Rightarrow> jsval \<Rightarrow> state \<Rightarrow> error + retval \<times> state" where
  "updateDocument api self documentId content options cb st =
     (case shift_cb options cb of
        (options, cb) \<Rightarrow>
          (case this_collection st self of
             None \<Rightarrow> Inl TypeError
           | Some (name, k, h) \<Rightarrow>
               let data = addHeaders api [(''_id'', documentId), (''body'', content)]
                            (headers_at st h)
               in if truthy cb
                  then Inr (This self,
                         kuzzle_query k name ''write'' ''update'' data options
                           (UpdateCb cb self) st)
                  else Inr (This self,
                         kuzzle_query k name ''write'' ''update'' data options
                           (Passed JUndefined) st)))"

definition roomFactory :: "api \<Rightarrow> addr \<Rightarrow> jsval \<Rightarrow> state \<Rightarrow> error + retval \<times> state" where
  "roomFactory api self options st =
     (case this_collection st self of
        None \<Rightarrow> Inl TypeError
      | Some (name, k, h) \<Rightarrow> Inr (RoomRet (new_KuzzleRoom api name options), st))"

definition dataMappingFactory :: "addr \<Rightarrow> jsval \<Rightarrow> state \<Rightarrow> error + retval \<times> state" where
  "dataMappingFactory self mapping st = Inr (MappingRet self mapping, st)"

text \<open>
  Modelled from the spec: the session's \<open>setHeaders(content, replace)\<close> is not among the
  sources; the wrapper applies it to itself (\<open>this.kuzzle.setHeaders.call(this, ...)\<close>),
  so it acts on the \<open>headers\<close> property of its receiver. By the documentation of the
  wrapper's method, with \<open>replace\<close> true the current headers are replaced with the
  provided content (the receiver's property then refers to the object provided, here a
  new one), otherwise the content is appended to the current headers object, replacing
  the values that exist already.
\<close>

definition kuzzle_setHeaders :: "addr \<Rightarrow> fields \<Rightarrow> jsval \<Rightarrow> state \<Rightarrow> state" where
  "kuzzle_setHeaders this content replace st =
     (case heap st this of
        Some (Collection name k h added) \<Rightarrow>
          if truthy replace
          then st\<lparr>heap := (heap st)(next_addr st \<mapsto> HeadersObj content,
                                     this \<mapsto> Collection name k (next_addr st) added),
                  next_addr := Suc (next_addr st)\<rparr>
          else st\<lparr>heap := (heap st)(h \<mapsto> HeadersObj
                             (foldl (\<lambda>hs (key, v). put key v hs) (headers_at st h) content))\<rparr>
      | _ \<Rightarrow> st)"

definition setHeaders :: "addr \<Rightarrow> fields \<Rightarrow> jsval \<Rightarrow> state \<Rightarrow> error + retval \<times> state" where
  "setHeaders self content replace st =
     (case this_collection st self of
        None \<Rightarrow> Inl TypeError
      | Some (name, k, h) \<Rightarrow> Inr (This self, kuzzle_setHeaders self content replace st))"

subsection \<open>Calls and reachable states\<close>

text \<open>A call of one of the prototype's methods, with its arguments.\<close>

datatype operation =
    AdvancedSearch jsval jsval jsval
  | Count jsval jsval jsval
  | Create jsval jsval
  | CreateDocument document jsval jsval
  | Delete jsval jsval
  | DeleteDocument jsval jsval jsval
  | FetchDocument jsval jsval jsval
  | FetchAllDocuments jsval jsval
  | GetMapping jsval jsval
  | Publish document jsval
  | PutMapping jsval jsval jsval
  | ReplaceDocument jsval jsval jsval jsval
  | Subscribe jsval jsval jsval
  | Truncate jsval jsval
  | UpdateDocument jsval jsval jsval jsval
  | DocumentFactory jsval jsval
  | RoomFactory jsval
  | DataMappingFactory jsval
  | SetHeaders fields jsval

fun operation_name :: "operation \<Rightarrow> string" where
  "operation_name (AdvancedSearch filters options cb) = ''advancedSearch''"
| "operation_name (Count filters options cb) = ''count''"
| "operation_name (Create options cb) = ''create''"
| "operation_name (CreateDocument document options cb) = ''createDocument''"
| "operation_name (Delete options cb) = ''delete''"
| "operation_name (DeleteDocument arg options cb) = ''deleteDocument''"
| "operation_name (FetchDocument documentId options cb) = ''fetchDocument''"
| "operation_name (FetchAllDocuments options cb) = ''fetchAllDocuments''"
| "operation_name (GetMapping options cb) = ''getMapping''"
| "operation_name (Publish document options) = ''publish''"
| "operation_name (PutMapping mapping options cb) = ''putMapping''"
| "operation_name (ReplaceDocument documentId content options cb) = ''replaceDocument''"
| "operation_name (Subscribe filters cb options) = ''subscribe''"
| "operation_name (Truncate options cb) = ''truncate''"
| "operation_name (UpdateDocument documentId content options cb) = ''updateDocument''"
| "operation_name (DocumentFactory i content) = ''documentFactory''"
| "operation_name (RoomFactory options) = ''roomFactory''"
| "operation_name (DataMappingFactory mapping) = ''dataMappingFactory''"
| "operation_name (SetHeaders content replace) = ''setHeaders''"

fun call :: "api \<Rightarrow> addr \<Rightarrow> operation \<Rightarrow> state \<Rightarrow> error + retval \<times> state" where
  "call api self (AdvancedSearch filters options cb) st =
     advancedSearch api self filters options cb st"
| "call api self (Count filters options cb) st = count api self filters options cb st"
| "call api self (Create options cb) st = create api self options cb st"
| "call api self (CreateDocument document options cb) st =
     createDocument api self document options cb st"
| "call api self (Delete options cb) st = delete api self options cb st"
| "call api self (DeleteDocument arg options cb) st =
     deleteDocument api self arg options cb st"
| "call api self (FetchDocument documentId options cb) st =
     fetchDocument api self documentId options cb st"
| "call api self (FetchAllDocuments options cb) st = fetchAllDocuments api self options cb st"
| "call api self (GetMapping options cb) st = getMapping self options cb st"
| "call api self (Publish document options) st = publish api self document options st"
| "call api self (PutMapping mapping options cb) st = putMapping self mapping options cb st"
| "call api self (ReplaceDocument documentId content options cb) st =
     replaceDocument api self documentId content options cb st"
| "call api self (Subscribe filters cb options) st = subscribe api self filters cb options st"
| "call api self (Truncate options cb) st = truncate api self options cb st"
| "call api self (UpdateDocument documentId content options cb) st =
     updateDocument api self documentId content options cb st"
| "call api self (DocumentFactory i content) st =
     (case documentFactory self i content of
        Inl e \<Rightarrow> Inl e
      | Inr d \<Rightarrow> Inr (DocRet d, st))"
| "call api self (RoomFactory options) st = roomFactory api self options st"
| "call api self (DataMappingFactory mapping) st = dataMappingFactory self mapping st"
| "call api self (SetHeaders content replace) st = setHeaders self content replace st"

text \<open>
  A state before any wrapper is built: the store holds sessions and headers objects
  only, every object and every headers reference below the allocation pointer.
\<close>

definition no_wrappers :: "state \<Rightarrow> bool" where
  "no_wrappers st =
     (\<forall>a c. heap st a = Some c \<longrightarrow>
        a < next_addr st \<and>
        (case c of
           Session hk b \<Rightarrow> hk < next_addr st
         | HeadersObj kvs \<Rightarrow> True
         | Collection name k h added \<Rightarrow> False))"

text \<open>
  The states the constructor and the prototype's operations lead to, with the session
  acknowledging subscriptions, cancelling them and resolving requests in between.
\<close>

inductive reachable :: "api \<Rightarrow> state \<Rightarrow> bool" for api :: api where
  start: "no_wrappers st \<Longrightarrow> reachable api st"
| construct:
    "reachable api st \<Longrightarrow> KuzzleDataCollection api k name st = Inr (w, st') \<Longrightarrow>
     reachable api st'"
| operate: "reachable api st \<Longrightarrow> call api self op st = Inr (r, st') \<Longrightarrow> reachable api st'"
| acknowledge: "reachable api st \<Longrightarrow> reachable api (registry_ack rid channel st)"
| unsubscribe: "reachable api st \<Longrightarrow> reachable api (room_unsubscribe room st)"
| respond: "reachable api st \<Longrightarrow> tracker_run evs st = (outs, st') \<Longrightarrow> reachable api st'"

text \<open>
  The invariant of the reachable states: every object and every headers reference lies
  below the allocation pointer, the headers reference of a wrapper leads to a headers
  object, and no other session or wrapper holds the same reference.
\<close>

fun headers_ref :: "cell \<Rightarrow> addr option" where
  "headers_ref (Session hk b) = Some hk"
| "headers_ref (HeadersObj kvs) = None"
| "headers_ref (Collection name k h added) = Some h"

definition allocated :: "state \<Rightarrow> bool" where
  "allocated st =
     (\<forall>a c. heap st a = Some c \<longrightarrow>
        a < next_addr st \<and> (\<forall>r. headers_ref c = Some r \<longrightarrow> r < next_addr st))"

definition own_headers :: "state \<Rightarrow> bool" where
  "own_headers st =
     (\<forall>a name k h added. heap st a = Some (Collection name k h added) \<longrightarrow>
        (\<exists>kvs. heap st h = Some (HeadersObj kvs)) \<and>
        (\<forall>a' c'. a' \<noteq> a \<longrightarrow> heap st a' = Some c' \<longrightarrow> headers_ref c' \<noteq> Some h))"

definition well_formed :: "state \<Rightarrow> bool" where
  "well_formed st = (allocated st \<and> own_headers st)"

text \<open>The headers a session and a wrapper see, and a wrapper's read-only properties.\<close>

definition session_headers :: "state \<Rightarrow> addr \<Rightarrow> fields option" where
  "session_headers st k =
     (case heap st k of
        Some (Session hk b) \<Rightarrow> Some (headers_at st hk)
      | _ \<Rightarrow> None)"

definition wrapper_headers :: "state \<Rightarrow> addr \<Rightarrow> fields option" where
  "wrapper_headers st w =
     (case heap st w of
        Some (Collection name k h added) \<Rightarrow> Some (headers_at st h)
      | _ \<Rightarrow> None)"

definition identity_of :: "state \<Rightarrow> addr \<Rightarrow> (string \<times> addr) option" where
  "identity_of st w =
     (case heap st w of
        Some (Collection name k h added) \<Rightarrow> Some (name, k)
      | _ \<Rightarrow> None)"

text \<open>A state to evaluate on: one session at 0 with its headers object at 1.\<close>

definition session_state :: "fields \<Rightarrow> bool \<Rightarrow> state" where
  "session_state hdrs bluebird =
     \<lparr>heap = (\<lambda>a. None)(0 \<mapsto> Session 1 bluebird, 1 \<mapsto> HeadersObj hdrs),
      next_addr = 2, queries = [], mapping_calls = [], pending = (\<lambda>r. None),
      next_request = 0, rooms = [], network = [], next_callback = 0\<rparr>"

text \<open>
  An \<open>addHeaders\<close> to evaluate with: it adds each header whose name the request lacks.
\<close>

definition fill_headers :: "fields \<Rightarrow> fields \<Rightarrow> fields" where
  "fill_headers query hdrs =
     foldl (\<lambda>q (key, v). if map_of q key = None then q @ [(key, v)] else q) query hdrs"

definition example_api :: api where
  "example_api =
     \<lparr>addHeaders = fill_headers,
      toJSON = (\<lambda>d. [(''_id'', d_id d), (''body'', d_content d)]),
      default_filter = (\<lambda>n. True),
      subscribeToSelf = (\<lambda>options. True)\<rparr>"

subsection \<open>Notions the properties are stated with\<close>

text \<open>\<open>addHeaders\<close> keeps the properties the request has already.\<close>

definition keeps_fields :: "(fields \<Rightarrow> fields \<Rightarrow> fields) \<Rightarrow> bool" where
  "keeps_fields f = (\<forall>q hs key v. map_of q key = Some v \<longrightarrow> map_of (f q hs) key = Some v)"

text \<open>
  A method call that returns its receiver and hands exactly one request to the session
  \<open>k\<close>, with no callback, the request satisfying \<open>P\<close>.
\<close>

definition fire_and_forget ::
  "state \<Rightarrow> addr \<Rightarrow> addr \<Rightarrow> (error + retval \<times> state) \<Rightarrow> (query_call \<Rightarrow> bool) \<Rightarrow> bool" where
  "fire_and_forget st self k result P =
     (case result of
        Inl e \<Rightarrow> False
      | Inr (r, st') \<Rightarrow>
          r = This self \<and>
          (\<exists>q. queries st' = queries st @ [q] \<and> q_session q = k \<and>
               q_cb q = Passed JUndefined \<and> P q))"










text \<open>The callback set of the room \<open>rid\<close>: empty when there is no such room.\<close>

definition callbacks_of :: "state \<Rightarrow> room_id \<Rightarrow> (nat \<times> jsval) list" where
  "callbacks_of st rid = (case map_of (rooms st) rid of None \<Rightarrow> [] | Some r \<Rightarrow> r_callbacks r)"

text \<open>The network subscribe calls issued so far for the room \<open>rid\<close>.\<close>

definition subscribe_calls :: "state \<Rightarrow> room_id \<Rightarrow> nat" where
  "subscribe_calls st rid = length (filter (\<lambda>c. c = NetSubscribe rid) (network st))"

text \<open>A state with a wrapper: the collection \<open>users\<close> built on that session.\<close>

definition users_state :: state where
  "users_state =
     (case KuzzleDataCollection example_api 0 ''users''
             (session_state [(''token'', JStr ''t'')] False) of
        Inl e \<Rightarrow> session_state [] False
      | Inr (w, st) \<Rightarrow> st)"


text \<open>
  That state after one subscription to the whole collection, acknowledged by the backend
  on the channel \<open>ch1\<close>.
\<close>

definition subscribed_state :: state where
  "subscribed_state =
     (case subscribe example_api 2 (JObj []) (JFun 1) JUndefined users_state of
        Inl e \<Rightarrow> users_state
      | Inr (r, st) \<Rightarrow> registry_ack (''users'', JObj [], True) ''ch1'' st)"

section \<open>Properties of Profile\<close>

text \<open>
  C4. The session reference of a Profile is concealed: it is a non-enumerable own
  property read back by the accessor only, \<open>serialize\<close> returns an object with exactly
  the fields \<open>_id\<close>, \<open>rateLimit\<close> and \<open>policies\<close>, and two profiles built from the same
  \<open>_id\<close> and content over different session references serialize to the same value.
\<close>

theorem profile_serialize_conceals_session:
  "serialize (Profile k1 p_id content) = serialize (Profile k2 p_id content)
   \<and> keys_of (serialize (Profile k1 p_id content)) = [''_id'', ''rateLimit'', ''policies'']
   \<and> ''_kuzzle'' \<notin> set (enumerable_keys (Profile k1 p_id content))
   \<and> profile_kuzzle (Profile k1 p_id content) = Some (Session_ref k1)"
  by (simp add: serialize_def Profile_def profile_field_def enumerable_keys_def
      profile_kuzzle_def Let_def)

section \<open>Properties of KuzzleDataCollection\<close>

subsection \<open>Auxiliary facts and the example states\<close>

lemma map_of_put_same: "map_of (put k v kvs) k = Some v"
  by (induction kvs) auto

lemma map_of_put_other: "k' \<noteq> k \<Longrightarrow> map_of (put k v kvs) k' = map_of kvs k'"
  by (induction kvs) auto

lemma map_of_filter_out: "map_of (filter (\<lambda>(i, r). i \<noteq> k) kvs) k = None"
  by (induction kvs) auto

lemma fill_headers_keeps: "keeps_fields fill_headers"
proof -
  have "map_of q key = Some v \<Longrightarrow>
        map_of (foldl (\<lambda>q (key, v). if map_of q key = None then q @ [(key, v)] else q) q hs) key = Some v"
    for q :: fields and hs key v
    by (induction hs arbitrary: q) (auto simp: map_add_Some_iff)
  then show ?thesis by (simp add: keeps_fields_def fill_headers_def)
qed

lemma example_api_keeps: "keeps_fields (addHeaders example_api)"
  using fill_headers_keeps by (simp add: example_api_def)

lemma users_state_built:
  "KuzzleDataCollection example_api 0 ''users'' (session_state [(''token'', JStr ''t'')] False) =
     Inr (2, users_state)"
  by (simp add: users_state_def KuzzleDataCollection_def session_state_def Let_def)

lemma users_state_heap:
  "heap users_state = (\<lambda>a. None)(0 \<mapsto> Session 1 False, 1 \<mapsto> HeadersObj [(''token'', JStr ''t'')],
               3 \<mapsto> HeadersObj [(''token'', JStr ''t'')], 2 \<mapsto> Collection ''users'' 0 3 [])"
  by (simp add: users_state_def KuzzleDataCollection_def session_state_def Let_def
      numeral_3_eq_3 numeral_2_eq_2)

lemma users_state_fields:
  "next_addr users_state = 4" "queries users_state = []" "mapping_calls users_state = []"
  "pending users_state = (\<lambda>r. None)" "next_request users_state = 0" "rooms users_state = []"
  "network users_state = []" "next_callback users_state = 0"
  by (simp_all add: users_state_def KuzzleDataCollection_def session_state_def Let_def)

lemma users_state_collection: "this_collection users_state 2 = Some (''users'', 0, 3)"
  by (simp add: users_state_heap this_collection_def)

lemma users_state_headers: "headers_at users_state 3 = [(''token'', JStr ''t'')]"
  by (simp add: users_state_heap headers_at_def)

subsection \<open>The constructor\<close>

lemma promisified_names:
  "\<forall>n\<in>set prototype_methods. default_filter api n \<Longrightarrow>
   promisifyAll api prototype_methods =
     [''advancedSearchPromise'', ''countPromise'', ''createPromise'', ''createDocumentPromise'',
      ''deletePromise'', ''deleteDocumentPromise'', ''fetchDocumentPromise'',
      ''fetchAllDocumentsPromise'', ''getMappingPromise'', ''putMappingPromise'',
      ''replaceDocumentPromise'', ''truncatePromise'', ''updateDocumentPromise'',
      ''documentFactoryPromise'', ''roomFactoryPromise'', ''dataMappingFactoryPromise'']"
  by (simp add: promisifyAll_def prototype_methods_def promisify_filter_def blacklist_def)

text \<open>
  C3. Promisification is injected at construction time: on a session that carries a
  bluebird handle the constructor returns an instance on which every method of the
  prototype has a variant with the suffix \<open>Promise\<close>, except exactly \<open>publish\<close>,
  \<open>setHeaders\<close> and \<open>subscribe\<close>; without the handle it returns the plain instance, which
  answers to the prototype's methods only. (bluebird's default filter is assumed to
  accept the prototype's method names.)
\<close>

theorem promisification_at_construction:
  assumes "heap st k = Some (Session hk b)"
    and "heap st hk = Some (HeadersObj kvs)"
    and "\<forall>n\<in>set prototype_methods. default_filter api n"
  shows "\<exists>w st'. KuzzleDataCollection api k name st = Inr (w, st')
     \<and> (b \<longrightarrow> (\<forall>n\<in>set prototype_methods.
            (n @ ''Promise'' \<in> set (methods_of st' w)) = (n \<notin> {''publish'', ''setHeaders'', ''subscribe''})))
     \<and> (\<not> b \<longrightarrow> methods_of st' w = prototype_methods)"
  using assms(1,2) promisified_names[OF assms(3)]
  by (simp add: KuzzleDataCollection_def Let_def methods_of_def) (simp add: prototype_methods_def)

theorem promisification_at_construction_witness:
  "\<exists>w st'. KuzzleDataCollection example_api 0 ''users'' (session_state [] True) = Inr (w, st')
     \<and> ''countPromise'' \<in> set (methods_of st' w)
     \<and> ''publishPromise'' \<notin> set (methods_of st' w)"
proof -
  have h1: "heap (session_state [] True) 0 = Some (Session 1 True)"
    by (simp add: session_state_def)
  have h2: "heap (session_state [] True) 1 = Some (HeadersObj [])"
    by (simp add: session_state_def)
  have h3: "\<forall>n\<in>set prototype_methods. default_filter example_api n"
    by (simp add: example_api_def)
  from promisification_at_construction[OF h1 h2 h3, of "''users''"]
  obtain w st' where c: "KuzzleDataCollection example_api 0 ''users'' (session_state [] True) = Inr (w, st')"
    and m: "\<forall>n\<in>set prototype_methods.
            (n @ ''Promise'' \<in> set (methods_of st' w)) = (n \<notin> {''publish'', ''setHeaders'', ''subscribe''})"
    by auto
  have "''count'' \<in> set prototype_methods" "''publish'' \<in> set prototype_methods"
    by (simp_all add: prototype_methods_def)
  then have "''count'' @ ''Promise'' \<in> set (methods_of st' w)"
    "''publish'' @ ''Promise'' \<notin> set (methods_of st' w)"
    using bspec[OF m, of "''count''"] bspec[OF m, of "''publish''"] by simp_all
  with c show ?thesis by auto
qed

subsection \<open>Requests\<close>

lemma kuzzle_query_queries:
  "queries (kuzzle_query k coll controller action data options cb st) =
     queries st @ [\<lparr>q_session = k, q_request = next_request st, q_collection = coll,
             q_controller = controller, q_action = action, q_data = data,
             q_options = options, q_cb = cb\<rparr>]"
  by (simp add: kuzzle_query_def)

lemma shift_cb_absent:
  "\<not> truthy cb \<Longrightarrow> \<not> is_function options \<Longrightarrow> shift_cb options cb = (options, cb)"
  by (simp add: shift_cb_def)

text \<open>
  C7. A mutation (\<open>createDocument\<close>, \<open>deleteDocument\<close>, \<open>replaceDocument\<close>,
  \<open>updateDocument\<close>, \<open>publish\<close>) called without a callback hands exactly one request to
  the session's \<open>query\<close>, with no callback attached, and returns the collection instance;
  the request of \<open>createDocument\<close> has \<open>persist = true\<close> and the one of \<open>publish\<close> has
  \<open>persist = false\<close>, \<open>addHeaders\<close> keeping the properties of the request.
\<close>

theorem mutations_without_callback:
  assumes self: "this_collection st self = Some (name, k, h)"
    and cb: "\<not> truthy cb"
    and opts: "\<not> is_function options"
    and keep: "keeps_fields (addHeaders api)"
  shows "fire_and_forget st self k (createDocument api self document options cb st)
           (\<lambda>q. map_of (q_data q) ''persist'' = Some (JBool True))
       \<and> fire_and_forget st self k (deleteDocument api self arg options cb st) (\<lambda>q. True)
       \<and> fire_and_forget st self k
           (replaceDocument api self documentId content options cb st) (\<lambda>q. True)
       \<and> fire_and_forget st self k
           (updateDocument api self documentId content options cb st) (\<lambda>q. True)
       \<and> fire_and_forget st self k (publish api self document options st)
           (\<lambda>q. map_of (q_data q) ''persist'' = Some (JBool False))"
proof -
  have p: "map_of (addHeaders api (put ''persist'' v d) hs) ''persist'' = Some v" for v d hs
    using keep map_of_put_same[of "''persist''" v d] unfolding keeps_fields_def by blast
  have a: "fire_and_forget st self k (createDocument api self document options cb st)
           (\<lambda>q. map_of (q_data q) ''persist'' = Some (JBool True))"
    using self cb opts p
    by (simp add: fire_and_forget_def createDocument_def shift_cb_absent Let_def
        kuzzle_query_queries)
  have b: "fire_and_forget st self k (deleteDocument api self arg options cb st) (\<lambda>q. True)"
    using self cb opts
    by (simp add: fire_and_forget_def deleteDocument_def shift_cb_absent Let_def
        kuzzle_query_queries split: jsval.splits)
  have c: "fire_and_forget st self k
           (replaceDocument api self documentId content options cb st) (\<lambda>q. True)"
    using self cb opts
    by (simp add: fire_and_forget_def replaceDocument_def shift_cb_absent Let_def
        kuzzle_query_queries)
  have d: "fire_and_forget st self k
           (updateDocument api self documentId content options cb st) (\<lambda>q. True)"
    using self cb opts
    by (simp add: fire_and_forget_def updateDocument_def shift_cb_absent Let_def
        kuzzle_query_queries)
  have e: "fire_and_forget st self k (publish api self document options st)
           (\<lambda>q. map_of (q_data q) ''persist'' = Some (JBool False))"
    using self p
    by (simp add: fire_and_forget_def publish_def Let_def kuzzle_query_queries)
  from a b c d e show ?thesis by simp
qed

theorem mutations_without_callback_witness:
  "fire_and_forget users_state 2 0
     (createDocument example_api 2 (Other (JObj [(''a'', JNum 1)])) JUndefined JUndefined users_state)
     (\<lambda>q. map_of (q_data q) ''persist'' = Some (JBool True))
   \<and> fire_and_forget users_state 2 0
     (publish example_api 2 (Other (JObj [(''a'', JNum 1)])) JUndefined users_state)
     (\<lambda>q. map_of (q_data q) ''persist'' = Some (JBool False))"
  using mutations_without_callback[OF users_state_collection _ _ example_api_keeps,
      of JUndefined JUndefined "Other (JObj [(''a'', JNum 1)])"]
  by simp

text \<open>
  C8. For every options value and callback, \<open>fetchAllDocuments(options, cb)\<close> behaves
  exactly like \<open>advancedSearch({}, options, cb)\<close>: the same result and the same state
  after, hence the same read/search request with empty filters and the same closure
  around the callback.
\<close>

theorem fetchAll_is_search:
  assumes "is_function cb \<or> (\<not> truthy cb \<and> is_function options)"
  shows "fetchAllDocuments api self options cb st = advancedSearch api self (JObj []) options cb st"
  using assms
  by (cases cb; cases options)
     (auto simp: fetchAllDocuments_def advancedSearch_def shift_cb_def callbackRequired_def
        split: option.splits prod.splits sum.splits)

theorem fetchAll_is_search_witness:
  "fetchAllDocuments example_api 2 (JFun 5) JUndefined users_state =
     advancedSearch example_api 2 (JObj []) (JFun 5) JUndefined users_state
   \<and> (\<exists>st'. fetchAllDocuments example_api 2 (JFun 5) JUndefined users_state = Inr (This 2, st')
        \<and> map q_action (queries st') = [''search''])"
proof -
  have "fetchAllDocuments example_api 2 (JFun 5) JUndefined users_state =
     advancedSearch example_api 2 (JObj []) (JFun 5) JUndefined users_state"
    by (rule fetchAll_is_search) simp
  moreover have "\<exists>st'. advancedSearch example_api 2 (JObj []) (JFun 5) JUndefined users_state
        = Inr (This 2, st') \<and> map q_action (queries st') = [''search'']"
    by (simp add: advancedSearch_def shift_cb_def users_state_collection callbackRequired_def
        Let_def kuzzle_query_queries users_state_fields)
  ultimately show ?thesis by simp
qed

lemma shift_cb_callback:
  "snd (shift_cb options cb) = JFun f \<Longrightarrow> \<exists>options'. shift_cb options cb = (options', JFun f)"
  by (cases "shift_cb options cb") simp

lemma kuzzle_query_pending:
  "pending (kuzzle_query k coll controller action data options cb st) (next_request st) = Some cb"
  by (simp add: kuzzle_query_def)

text \<open>
  C9. On a successful \<open>deleteDocument\<close> the callback receives \<open>(null, [id])\<close> when the
  argument is a string id, whatever the response holds, and \<open>(null, res.ids)\<close> when the
  argument is a set of filters.
\<close>

theorem deleteDocument_result:
  assumes self: "this_collection st self = Some (name, k, h)"
    and cb: "snd (shift_cb options cb) = JFun f"
    and keep: "keeps_fields (addHeaders api)"
    and ok: "\<not> truthy err"
  shows "(\<exists>kb st'. deleteDocument api self (JStr i) options cb st = Inr (This self, st')
            \<and> pending st' (next_request st) = Some kb
            \<and> deliver kb err res = Inr [Called f [Value JNull, Value (JArr [JStr i])]])
       \<and> ((\<forall>s. arg \<noteq> JStr s) \<longrightarrow> get_prop res ''ids'' = Inr ids \<longrightarrow>
            (\<exists>kb st'. deleteDocument api self arg options cb st = Inr (This self, st')
               \<and> pending st' (next_request st) = Some kb
               \<and> deliver kb err res = Inr [Called f [Value JNull, Value ids]]))"
proof -
  from shift_cb_callback[OF cb] obtain o' where s: "shift_cb options cb = (o', JFun f)" by blast
  have idk: "map_of (addHeaders api [(''_id'', JStr i)] hs) ''_id'' = Some (JStr i)" for hs
    using keep unfolding keeps_fields_def by simp
  have byId: "\<exists>kb st'. deleteDocument api self (JStr i) options cb st = Inr (This self, st')
            \<and> pending st' (next_request st) = Some kb
            \<and> deliver kb err res = Inr [Called f [Value JNull, Value (JArr [JStr i])]]"
    using self s ok idk
    by (simp add: deleteDocument_def Let_def kuzzle_query_pending)
  have byQuery: "\<exists>kb st'. deleteDocument api self arg options cb st = Inr (This self, st')
               \<and> pending st' (next_request st) = Some kb
               \<and> deliver kb err res = Inr [Called f [Value JNull, Value ids]]"
    if "\<forall>s. arg \<noteq> JStr s" and "get_prop res ''ids'' = Inr ids"
    using self s ok that
    by (cases arg) (simp_all add: deleteDocument_def Let_def kuzzle_query_pending)
  from byId byQuery show ?thesis by blast
qed

theorem deleteDocument_result_witness:
  "(\<exists>kb st'. deleteDocument example_api 2 (JStr ''doc1'') JUndefined (JFun 9) users_state
                = Inr (This 2, st')
            \<and> pending st' 0 = Some kb
            \<and> deliver kb JNull (JObj [(''_id'', JStr ''other'')])
                = Inr [Called 9 [Value JNull, Value (JArr [JStr ''doc1''])]])
   \<and> (\<exists>kb st'. deleteDocument example_api 2 (JObj [(''term'', JStr ''x'')]) JUndefined (JFun 9)
                  users_state = Inr (This 2, st')
            \<and> pending st' 0 = Some kb
            \<and> deliver kb JNull (JObj [(''ids'', JArr [JStr ''a'', JStr ''b''])])
                = Inr [Called 9 [Value JNull, Value (JArr [JStr ''a'', JStr ''b''])]])"
proof -
  have cb: "snd (shift_cb JUndefined (JFun 9)) = JFun 9" by (simp add: shift_cb_def)
  have ok: "\<not> truthy JNull" by simp
  have ids: "get_prop (JObj [(''ids'', JArr [JStr ''a'', JStr ''b''])]) ''ids''
             = Inr (JArr [JStr ''a'', JStr ''b''])" by simp
  have obj: "\<forall>s. JObj [(''term'', JStr ''x'')] \<noteq> JStr s" by simp
  from deleteDocument_result[OF users_state_collection cb example_api_keeps ok,
      of "''doc1''" "JObj [(''_id'', JStr ''other'')]"]
    deleteDocument_result[OF users_state_collection cb example_api_keeps ok,
      of _ "JObj [(''ids'', JArr [JStr ''a'', JStr ''b''])]" "JObj [(''term'', JStr ''x'')]"
         "JArr [JStr ''a'', JStr ''b'']"]
    ids obj
  show ?thesis by (simp add: users_state_fields)
qed

subsection \<open>Responses\<close>















subsection \<open>Subscriptions\<close>

lemma find_put_channel:
  "find (\<lambda>(i, r). r_channel r = Some ch) rs = Some (rid, r) \<Longrightarrow> map_of rs rid = Some r \<Longrightarrow>
   r_channel r' = Some ch \<Longrightarrow>
   find (\<lambda>(i, r). r_channel r = Some ch) (put rid r' rs) = Some (rid, r')"
  by (induction rs) (auto split: if_splits)

lemma subscribe_on_active:
  assumes self: "this_collection st self = Some (name, k, h)"
    and room: "map_of (rooms st) (name, filters, subscribeToSelf api options) = Some r"
    and active: "r_state r = ACTIVE"
  shows "subscribe api self filters (JFun f) options st =
     Inr (RoomRet \<lparr>kr_collection = name, kr_self_notify = subscribeToSelf api options,
                   kr_subscription = Some ((name, filters, subscribeToSelf api options),
                                           next_callback st)\<rparr>,
          st\<lparr>rooms := put (name, filters, subscribeToSelf api options)
                       (r\<lparr>r_callbacks := r_callbacks r @ [(next_callback st, JFun f)]\<rparr>) (rooms st),
             next_callback := Suc (next_callback st)\<rparr>)"
  using assms
  by (simp add: subscribe_def callbackRequired_def new_KuzzleRoom_def room_renew_def
      registry_subscribe_def Let_def)

text \<open>
  C1. For every pair of \<open>subscribe\<close> calls with an identical collection, filters and
  subscribe-to-self flag while the room for that triple is ACTIVE, no network subscribe
  call is issued beyond the one that created the room: each call only adds its handler to
  the room's callback set, and a notification on the room's channel then reaches both
  handlers, after the ones registered before.
\<close>

theorem subscribe_deduplicates:
  assumes self: "this_collection st self = Some (name, k, h)"
    and same: "subscribeToSelf api options2 = subscribeToSelf api options1"
    and room: "map_of (rooms st) (name, filters, subscribeToSelf api options1) = Some r"
    and active: "r_state r = ACTIVE"
    and channel: "find (\<lambda>(i, r). r_channel r = Some ch) (rooms st) =
                    Some ((name, filters, subscribeToSelf api options1), r)"
  shows "\<exists>room1 st1 room2 st2.
     subscribe api self filters (JFun f1) options1 st = Inr (RoomRet room1, st1)
     \<and> subscribe api self filters (JFun f2) options2 st1 = Inr (RoomRet room2, st2)
     \<and> network st2 = network st
     \<and> subscribe_calls st2 (name, filters, subscribeToSelf api options1) =
         subscribe_calls st (name, filters, subscribeToSelf api options1)
     \<and> callbacks_of st2 (name, filters, subscribeToSelf api options1) =
         r_callbacks r @ [(next_callback st, JFun f1), (Suc (next_callback st), JFun f2)]
     \<and> notify ch payload st2 =
         notify ch payload st @ [Called f1 [Value payload], Called f2 [Value payload]]"
proof -
  let ?rid = "(name, filters, subscribeToSelf api options1)"
  let ?r1 = "r\<lparr>r_callbacks := r_callbacks r @ [(next_callback st, JFun f1)]\<rparr>"
  let ?st1 = "st\<lparr>rooms := put ?rid ?r1 (rooms st), next_callback := Suc (next_callback st)\<rparr>"
  let ?r2 = "?r1\<lparr>r_callbacks := r_callbacks ?r1 @ [(next_callback ?st1, JFun f2)]\<rparr>"
  let ?st2 = "?st1\<lparr>rooms := put ?rid ?r2 (rooms ?st1), next_callback := Suc (next_callback ?st1)\<rparr>"
  from channel have ch: "r_channel r = Some ch" by (auto dest: find_Some_iff[THEN iffD1])
  have self1: "this_collection ?st1 self = Some (name, k, h)"
    using self by (simp add: this_collection_def)
  have room1: "map_of (rooms ?st1) (name, filters, subscribeToSelf api options2) = Some ?r1"
    by (simp add: same map_of_put_same)
  have s1: "subscribe api self filters (JFun f1) options1 st = Inr (RoomRet
      \<lparr>kr_collection = name, kr_self_notify = subscribeToSelf api options1,
       kr_subscription = Some (?rid, next_callback st)\<rparr>, ?st1)"
    by (rule subscribe_on_active[OF self room active])
  have s2: "subscribe api self filters (JFun f2) options2 ?st1 = Inr (RoomRet
      \<lparr>kr_collection = name, kr_self_notify = subscribeToSelf api options2,
       kr_subscription = Some ((name, filters, subscribeToSelf api options2), next_callback ?st1)\<rparr>,
      ?st2)"
    using subscribe_on_active[OF self1 room1, of f2] active by (simp add: same)
  have f1: "find (\<lambda>(i, r). r_channel r = Some ch) (rooms ?st1) = Some (?rid, ?r1)"
    using find_put_channel[OF channel room, of ?r1] ch by simp
  have f2: "find (\<lambda>(i, r). r_channel r = Some ch) (rooms ?st2) = Some (?rid, ?r2)"
    using find_put_channel[OF f1, of ?r2] ch by (simp add: map_of_put_same)
  have n: "notify ch payload ?st2 =
         notify ch payload st @ [Called f1 [Value payload], Called f2 [Value payload]]"
    using f2 channel active by (simp add: notify_def)
  have c: "callbacks_of ?st2 ?rid =
         r_callbacks r @ [(next_callback st, JFun f1), (Suc (next_callback st), JFun f2)]"
    by (simp add: callbacks_of_def map_of_put_same)
  have nw: "network ?st2 = network st" by simp
  have sc: "subscribe_calls ?st2 ?rid = subscribe_calls st ?rid" by (simp add: subscribe_calls_def)
  from s1 s2 nw sc c n show ?thesis by blast
qed

lemma subscribed_state_fields:
  "rooms subscribed_state =
     [((''users'', JObj [], True),
       \<lparr>r_callbacks = [(0, JFun 1)], r_state = ACTIVE, r_channel = Some ''ch1''\<rparr>)]"
  "network subscribed_state = [NetSubscribe (''users'', JObj [], True)]"
  "next_callback subscribed_state = 1"
  "heap subscribed_state = heap users_state"
  by (simp_all add: subscribed_state_def subscribe_def users_state_collection
      callbackRequired_def new_KuzzleRoom_def room_renew_def registry_subscribe_def Let_def
      users_state_fields example_api_def registry_ack_def)

lemma subscribed_state_collection: "this_collection subscribed_state 2 = Some (''users'', 0, 3)"
  using users_state_collection by (simp add: this_collection_def subscribed_state_fields)

theorem subscribe_deduplicates_witness:
  "\<exists>room1 st1 room2 st2.
     subscribe example_api 2 (JObj []) (JFun 2) JUndefined subscribed_state = Inr (RoomRet room1, st1)
     \<and> subscribe example_api 2 (JObj []) (JFun 3) JNull st1 = Inr (RoomRet room2, st2)
     \<and> network st2 = [NetSubscribe (''users'', JObj [], True)]
     \<and> subscribe_calls st2 (''users'', JObj [], True) = 1
     \<and> notify ''ch1'' (JStr ''n'') st2 =
         [Called 1 [Value (JStr ''n'')], Called 2 [Value (JStr ''n'')],
          Called 3 [Value (JStr ''n'')]]"
proof -
  let ?r = "\<lparr>r_callbacks = [(0, JFun 1)], r_state = ACTIVE, r_channel = Some ''ch1''\<rparr>"
  have same: "subscribeToSelf example_api JNull = subscribeToSelf example_api JUndefined"
    by (simp add: example_api_def)
  have flag: "subscribeToSelf example_api JUndefined = True" by (simp add: example_api_def)
  have room: "map_of (rooms subscribed_state)
      (''users'', JObj [], subscribeToSelf example_api JUndefined) = Some ?r"
    by (simp add: subscribed_state_fields flag)
  have active: "r_state ?r = ACTIVE" by simp
  have channel: "find (\<lambda>(i, r). r_channel r = Some ''ch1'') (rooms subscribed_state) =
      Some ((''users'', JObj [], subscribeToSelf example_api JUndefined), ?r)"
    by (simp add: subscribed_state_fields flag)
  have before: "notify ''ch1'' (JStr ''n'') subscribed_state = [Called 1 [Value (JStr ''n'')]]"
    by (simp add: notify_def subscribed_state_fields)
  from subscribe_deduplicates[OF subscribed_state_collection same room active channel,
      of 2 3 "JStr ''n''"]
  show ?thesis by (simp add: before subscribed_state_fields subscribe_calls_def flag) blast
qed

text \<open>
  C6. \<open>subscribe\<close> requires the callback: without one it fails. With one it returns a
  room handle, not the collection, that holds the subscription of the handler; calling
  \<open>unsubscribe\<close> on the handle removes that handler from the room.
\<close>

theorem subscribe_returns_room:
  assumes self: "this_collection st self = Some (name, k, h)"
  shows "(\<not> is_function cb \<longrightarrow>
            subscribe api self filters cb options st =
              Inl (CallbackRequired ''KuzzleDataCollection.subscribe''))
       \<and> (is_function cb \<longrightarrow>
            (\<exists>room st'. subscribe api self filters cb options st = Inr (RoomRet room, st')
               \<and> RoomRet room \<noteq> This self
               \<and> kr_subscription room =
                   Some ((name, filters, subscribeToSelf api options), next_callback st)
               \<and> (next_callback st, cb) \<in>
                   set (callbacks_of st' (name, filters, subscribeToSelf api options))
               \<and> next_callback st \<notin>
                   fst ` set (callbacks_of (room_unsubscribe room st')
                                (name, filters, subscribeToSelf api options))))"
proof (intro conjI impI)
  assume "\<not> is_function cb"
  with self show "subscribe api self filters cb options st =
              Inl (CallbackRequired ''KuzzleDataCollection.subscribe'')"
    by (simp add: subscribe_def callbackRequired_def)
next
  assume f: "is_function cb"
  let ?rid = "(name, filters, subscribeToSelf api options)"
  obtain sub st' where rs: "registry_subscribe name filters (subscribeToSelf api options) cb st
      = (sub, st')" by (cases "registry_subscribe name filters (subscribeToSelf api options) cb st")
  then have sub: "sub = (?rid, next_callback st)"
    by (auto simp: registry_subscribe_def Let_def split: option.splits if_splits)
  from rs have reg: "(next_callback st, cb) \<in> set (callbacks_of st' ?rid)"
    by (auto simp: registry_subscribe_def Let_def callbacks_of_def map_of_put_same
        split: option.splits if_splits)
  let ?room = "\<lparr>kr_collection = name, kr_self_notify = subscribeToSelf api options,
                 kr_subscription = Some sub\<rparr>"
  from f have t: "truthy cb" by (cases cb) simp_all
  have s: "subscribe api self filters cb options st = Inr (RoomRet ?room, st')"
    using self f t rs
    by (simp add: subscribe_def callbackRequired_def new_KuzzleRoom_def room_renew_def)
  have gone: "next_callback st \<notin> fst ` set (callbacks_of (room_unsubscribe ?room st') ?rid)"
    by (cases "map_of (rooms st') ?rid")
       (auto simp: room_unsubscribe_def sub registry_unsubscribe_def callbacks_of_def Let_def
          map_of_filter_out map_of_put_same)
  from s sub reg gone
  show "\<exists>room st'. subscribe api self filters cb options st = Inr (RoomRet room, st')
               \<and> RoomRet room \<noteq> This self
               \<and> kr_subscription room = Some (?rid, next_callback st)
               \<and> (next_callback st, cb) \<in> set (callbacks_of st' ?rid)
               \<and> next_callback st \<notin> fst ` set (callbacks_of (room_unsubscribe room st') ?rid)"
    by (intro exI[of _ ?room] exI[of _ st']) simp
qed

theorem subscribe_returns_room_witness:
  "subscribe example_api 2 (JObj []) JUndefined JUndefined users_state =
     Inl (CallbackRequired ''KuzzleDataCollection.subscribe'')
   \<and> (\<exists>room st'. subscribe example_api 2 (JObj []) (JFun 4) JUndefined users_state =
          Inr (RoomRet room, st')
        \<and> kr_subscription room = Some ((''users'', JObj [], True), 0)
        \<and> (0, JFun 4) \<in> set (callbacks_of st' (''users'', JObj [], True))
        \<and> callbacks_of (room_unsubscribe room st') (''users'', JObj [], True) = []
        \<and> network (room_unsubscribe room st') =
            [NetSubscribe (''users'', JObj [], True), NetUnsubscribe (''users'', JObj [], True)])"
proof -
  have a: "subscribe example_api 2 (JObj []) JUndefined JUndefined users_state =
     Inl (CallbackRequired ''KuzzleDataCollection.subscribe'')"
    using subscribe_returns_room[OF users_state_collection, of JUndefined example_api "JObj []" JUndefined]
    by simp
  from subscribe_returns_room[OF users_state_collection, of "JFun 4" example_api "JObj []" JUndefined]
  obtain room st' where s: "subscribe example_api 2 (JObj []) (JFun 4) JUndefined users_state =
          Inr (RoomRet room, st')"
    and k: "kr_subscription room = Some ((''users'', JObj [], True), 0)"
    and m: "(0, JFun 4) \<in> set (callbacks_of st' (''users'', JObj [], True))"
    by (auto simp: example_api_def users_state_fields)
  from s have st': "rooms st' = [((''users'', JObj [], True),
       \<lparr>r_callbacks = [(0, JFun 4)], r_state = SUBSCRIBING, r_channel = None\<rparr>)]"
     "network st' = [NetSubscribe (''users'', JObj [], True)]"
    by (auto simp: subscribe_def users_state_collection callbackRequired_def new_KuzzleRoom_def
        room_renew_def registry_subscribe_def Let_def users_state_fields example_api_def)
  from k st' have u: "callbacks_of (room_unsubscribe room st') (''users'', JObj [], True) = []"
    "network (room_unsubscribe room st') =
            [NetSubscribe (''users'', JObj [], True), NetUnsubscribe (''users'', JObj [], True)]"
    by (simp_all add: room_unsubscribe_def registry_unsubscribe_def callbacks_of_def Let_def)
  from a s k m u show ?thesis by blast
qed

subsection \<open>Headers, identity and return values\<close>

lemma wf_start: "no_wrappers st \<Longrightarrow> well_formed st"
  unfolding well_formed_def allocated_def own_headers_def no_wrappers_def
  by (fastforce split: cell.splits)

lemma wf_same_heap: "heap st' = heap st \<Longrightarrow> next_addr st' = next_addr st \<Longrightarrow> well_formed st \<Longrightarrow> well_formed st'"
  by (simp add: well_formed_def allocated_def own_headers_def)

lemma call_heap:
  "call api self op st = Inr (r, st') \<Longrightarrow> operation_name op \<noteq> ''setHeaders'' \<Longrightarrow>
   heap st' = heap st \<and> next_addr st' = next_addr st"
  by (cases op)
     (auto simp: advancedSearch_def count_def create_def delete_def truncate_def
        plain_request_def createDocument_def deleteDocument_def fetchDocument_def
        fetchAllDocuments_def getMapping_def publish_def putMapping_def replaceDocument_def
        subscribe_def updateDocument_def roomFactory_def dataMappingFactory_def
        kuzzle_query_def room_renew_def registry_subscribe_def Let_def
        split: option.splits sum.splits if_splits prod.splits)

lemma call_returns_this:
  "call api self op st = Inr (r, st') \<Longrightarrow>
   operation_name op \<notin> {''subscribe'', ''documentFactory'', ''roomFactory'', ''dataMappingFactory''} \<Longrightarrow>
   r = This self"
  by (cases op)
     (auto simp: advancedSearch_def count_def create_def delete_def truncate_def
        plain_request_def createDocument_def deleteDocument_def fetchDocument_def
        fetchAllDocuments_def getMapping_def publish_def putMapping_def replaceDocument_def
        updateDocument_def setHeaders_def Let_def
        split: option.splits sum.splits if_splits prod.splits)

lemma construct_result:
  assumes "heap st k = Some (Session hk b)" and "heap st hk = Some (HeadersObj kvs)"
  shows "KuzzleDataCollection api k name st =
     Inr (next_addr st,
          st\<lparr>heap := (heap st)(Suc (next_addr st) \<mapsto> HeadersObj (clone_fields kvs),
                                next_addr st \<mapsto> Collection name k (Suc (next_addr st))
                                  (if b then promisifyAll api prototype_methods else [])),
             next_addr := Suc (Suc (next_addr st))\<rparr>)"
  using assms by (simp add: KuzzleDataCollection_def Let_def)

lemma construct_cases:
  assumes "KuzzleDataCollection api k name st = Inr (w, st')"
  obtains hk b kvs where "heap st k = Some (Session hk b)" "heap st hk = Some (HeadersObj kvs)"
  using assms
  by (auto simp: KuzzleDataCollection_def split: option.splits cell.splits)

lemma wf_construct:
  assumes wf: "well_formed st" and c: "KuzzleDataCollection api k name st = Inr (w, st')"
  shows "well_formed st'"
proof -
  from c obtain hk b kvs where k: "heap st k = Some (Session hk b)"
    and hk: "heap st hk = Some (HeadersObj kvs)" by (rule construct_cases)
  from wf have al: "allocated st" and own: "own_headers st" by (simp_all add: well_formed_def)
  let ?n = "next_addr st"
  from c construct_result[OF k hk, of api name]
  have st': "heap st' = (heap st)(Suc ?n \<mapsto> HeadersObj (clone_fields kvs),
                                ?n \<mapsto> Collection name k (Suc ?n)
                                  (if b then promisifyAll api prototype_methods else []))"
    and n': "next_addr st' = Suc (Suc ?n)" by auto
  have fresh: "heap st a = Some c \<Longrightarrow> a < ?n \<and> headers_ref c \<noteq> Some ?n \<and> headers_ref c \<noteq> Some (Suc ?n)"
    for a c using al unfolding allocated_def by fastforce
  have "allocated st'"
    unfolding allocated_def st' n' using al unfolding allocated_def
    by (auto split: if_splits) (fastforce+)
  moreover have "own_headers st'"
    unfolding own_headers_def st'
  proof (intro allI impI)
    fix a nm k' h added
    assume a: "((heap st)(Suc ?n \<mapsto> HeadersObj (clone_fields kvs),
                 ?n \<mapsto> Collection name k (Suc ?n)
                    (if b then promisifyAll api prototype_methods else []))) a
               = Some (Collection nm k' h added)"
    show "(\<exists>kvs'. ((heap st)(Suc ?n \<mapsto> HeadersObj (clone_fields kvs),
                 ?n \<mapsto> Collection name k (Suc ?n)
                    (if b then promisifyAll api prototype_methods else []))) h
                 = Some (HeadersObj kvs')) \<and>
          (\<forall>a' c'. a' \<noteq> a \<longrightarrow>
             ((heap st)(Suc ?n \<mapsto> HeadersObj (clone_fields kvs),
                 ?n \<mapsto> Collection name k (Suc ?n)
                    (if b then promisifyAll api prototype_methods else []))) a' = Some c' \<longrightarrow>
             headers_ref c' \<noteq> Some h)"
    proof (cases "a = ?n")
      case True
      with a have h: "h = Suc ?n" by simp
      show ?thesis using True h fresh by (auto split: if_splits)
    next
      case False
      with a have old: "heap st a = Some (Collection nm k' h added)" by (auto split: if_splits)
      from own old obtain kvs' where hh: "heap st h = Some (HeadersObj kvs')"
        and others: "\<And>a' c'. a' \<noteq> a \<Longrightarrow> heap st a' = Some c' \<Longrightarrow> headers_ref c' \<noteq> Some h"
        unfolding own_headers_def by blast
      from fresh[OF hh] fresh[OF old] have "h \<noteq> ?n" "h \<noteq> Suc ?n" by auto
      then show ?thesis using hh others False by (auto split: if_splits)
    qed
  qed
  ultimately show ?thesis by (simp add: well_formed_def)
qed


lemma setHeaders_replace:
  assumes "heap st w = Some (Collection name k h added)" and "truthy replace"
  shows "setHeaders w content replace st =
     Inr (This w, st\<lparr>heap := (heap st)(next_addr st \<mapsto> HeadersObj content,
                                        w \<mapsto> Collection name k (next_addr st) added),
                     next_addr := Suc (next_addr st)\<rparr>)"
  using assms by (simp add: setHeaders_def this_collection_def kuzzle_setHeaders_def)

lemma setHeaders_append:
  assumes "heap st w = Some (Collection name k h added)" and "\<not> truthy replace"
  shows "setHeaders w content replace st =
     Inr (This w, st\<lparr>heap := (heap st)(h \<mapsto> HeadersObj
                             (foldl (\<lambda>hs (key, v). put key v hs) (headers_at st h) content))\<rparr>)"
  using assms by (simp add: setHeaders_def this_collection_def kuzzle_setHeaders_def)

lemma wf_fresh:
  assumes "well_formed st" and "heap st a = Some c"
  shows "a < next_addr st" and "headers_ref c \<noteq> Some (next_addr st)"
    and "headers_ref c = Some r \<Longrightarrow> r < next_addr st"
  using assms unfolding well_formed_def allocated_def by fastforce+

lemma wf_own:
  assumes "well_formed st" and "heap st a = Some (Collection name k h added)"
  shows "\<exists>kvs. heap st h = Some (HeadersObj kvs)"
    and "a' \<noteq> a \<Longrightarrow> heap st a' = Some c' \<Longrightarrow> headers_ref c' \<noteq> Some h"
  using assms unfolding well_formed_def own_headers_def by blast+

lemma wf_setHeaders:
  assumes wf: "well_formed st" and s: "setHeaders w content replace st = Inr (r, st')"
  shows "well_formed st'"
proof -
  from s obtain name k h added where cell: "heap st w = Some (Collection name k h added)"
    by (auto simp: setHeaders_def this_collection_def split: option.splits cell.splits)
  let ?n = "next_addr st"
  from wf have al: "allocated st" and own: "own_headers st" by (simp_all add: well_formed_def)
  show ?thesis
  proof (cases "truthy replace")
    case True
    from s setHeaders_replace[OF cell True, of content]
    have st': "heap st' = (heap st)(?n \<mapsto> HeadersObj content, w \<mapsto> Collection name k ?n added)"
      and n': "next_addr st' = Suc ?n" by auto
    from wf_fresh[OF wf cell] have wn: "w \<noteq> ?n" by simp
    have "allocated st'"
      unfolding allocated_def st' n'
    proof (intro allI impI)
      fix a c
      assume upd: "((heap st)(?n \<mapsto> HeadersObj content, w \<mapsto> Collection name k ?n added)) a = Some c"
      show "a < Suc ?n \<and> (\<forall>r. headers_ref c = Some r \<longrightarrow> r < Suc ?n)"
      proof (cases "a = w")
        case True
        with upd have "c = Collection name k ?n added" by simp
        with True wf_fresh(1)[OF wf cell] show ?thesis by simp
      next
        case nw: False
        show ?thesis
        proof (cases "a = ?n")
          case True
          with nw upd have "c = HeadersObj content" by simp
          with True show ?thesis by simp
        next
          case False
          with nw upd have old: "heap st a = Some c" by simp
          from wf_fresh(1)[OF wf old] wf_fresh(3)[OF wf old] show ?thesis
            by (simp add: less_Suc_eq)
        qed
      qed
    qed
    moreover have "own_headers st'"
      unfolding own_headers_def st'
    proof (intro allI impI)
      fix a nm k' h' added'
      assume a: "((heap st)(?n \<mapsto> HeadersObj content, w \<mapsto> Collection name k ?n added)) a
                 = Some (Collection nm k' h' added')"
      show "(\<exists>kvs'. ((heap st)(?n \<mapsto> HeadersObj content, w \<mapsto> Collection name k ?n added)) h'
                 = Some (HeadersObj kvs')) \<and>
          (\<forall>a' c'. a' \<noteq> a \<longrightarrow>
             ((heap st)(?n \<mapsto> HeadersObj content, w \<mapsto> Collection name k ?n added)) a' = Some c' \<longrightarrow>
             headers_ref c' \<noteq> Some h')"
      proof (cases "a = w")
        case True
        with a have h': "h' = ?n" by simp
        have "headers_ref c' \<noteq> Some ?n"
          if "a' \<noteq> w" and "((heap st)(?n \<mapsto> HeadersObj content,
                w \<mapsto> Collection name k ?n added)) a' = Some c'" for a' c'
        proof (cases "a' = ?n")
          case True
          with that have "c' = HeadersObj content" by simp
          then show ?thesis by simp
        next
          case False
          with that have "heap st a' = Some c'" by simp
          from wf_fresh(2)[OF wf this] show ?thesis .
        qed
        with True h' wn show ?thesis by simp
      next
        case False
        with a wn have old: "heap st a = Some (Collection nm k' h' added')"
          by (simp split: if_splits)
        from wf_own(1)[OF wf old] obtain kvs' where hh: "heap st h' = Some (HeadersObj kvs')"
          by blast
        from wf_fresh(1)[OF wf hh] have hn: "h' \<noteq> ?n" by simp
        from hh cell have hw: "h' \<noteq> w" by auto
        have "headers_ref c' \<noteq> Some h'"
          if "a' \<noteq> a" and "((heap st)(?n \<mapsto> HeadersObj content,
                w \<mapsto> Collection name k ?n added)) a' = Some c'" for a' c'
        proof (cases "a' = w")
          case True
          with that(2) have "c' = Collection name k ?n added" by simp
          with hn show ?thesis by simp
        next
          case nw: False
          show ?thesis
          proof (cases "a' = ?n")
            case True
            with nw that(2) have "c' = HeadersObj content" by simp
            then show ?thesis by simp
          next
            case False
            with nw that(2) have "heap st a' = Some c'" by simp
            from wf_own(2)[OF wf old that(1) this] show ?thesis .
          qed
        qed
        with hh hn hw show ?thesis by simp
      qed
    qed
    ultimately show ?thesis by (simp add: well_formed_def)
  next
    case False
    let ?new = "HeadersObj (foldl (\<lambda>hs (key, v). put key v hs) (headers_at st h) content)"
    from s setHeaders_append[OF cell False, of content]
    have st': "heap st' = (heap st)(h \<mapsto> ?new)" and n': "next_addr st' = ?n" by auto
    from wf_own(1)[OF wf cell] obtain kvs where hh: "heap st h = Some (HeadersObj kvs)" by blast
    have "allocated st'"
      unfolding allocated_def st' n'
    proof (intro allI impI)
      fix a c
      assume upd: "((heap st)(h \<mapsto> ?new)) a = Some c"
      show "a < ?n \<and> (\<forall>r. headers_ref c = Some r \<longrightarrow> r < ?n)"
      proof (cases "a = h")
        case True
        with upd have "c = ?new" by simp
        with True wf_fresh(1)[OF wf hh] show ?thesis by simp
      next
        case False
        with upd have old: "heap st a = Some c" by simp
        from wf_fresh(1)[OF wf old] wf_fresh(3)[OF wf old] show ?thesis by simp
      qed
    qed
    moreover have "own_headers st'"
      unfolding own_headers_def st'
    proof (intro allI impI)
      fix a nm k' h' added'
      assume a: "((heap st)(h \<mapsto> ?new)) a = Some (Collection nm k' h' added')"
      then have old: "heap st a = Some (Collection nm k' h' added')" by (auto split: if_splits)
      from wf_own(1)[OF wf old] obtain kvs' where hh': "heap st h' = Some (HeadersObj kvs')"
        by blast
      have other: "headers_ref c' \<noteq> Some h'"
        if "a' \<noteq> a" and "((heap st)(h \<mapsto> ?new)) a' = Some c'" for a' c'
      proof (cases "a' = h")
        case True
        with that have "c' = ?new" by simp
        then show ?thesis by simp
      next
        case False
        with that have "heap st a' = Some c'" by simp
        from wf_own(2)[OF wf old that(1) this] show ?thesis .
      qed
      have "\<exists>kvs'. ((heap st)(h \<mapsto> ?new)) h' = Some (HeadersObj kvs')"
        using hh' by (cases "h' = h") simp_all
      with other
      show "(\<exists>kvs'. ((heap st)(h \<mapsto> ?new)) h' = Some (HeadersObj kvs')) \<and>
          (\<forall>a' c'. a' \<noteq> a \<longrightarrow> ((heap st)(h \<mapsto> ?new)) a' = Some c' \<longrightarrow>
             headers_ref c' \<noteq> Some h')"
        by blast
    qed
    ultimately show ?thesis by (simp add: well_formed_def)
  qed
qed

lemma wf_call:
  assumes wf: "well_formed st" and c: "call api self op st = Inr (r, st')"
  shows "well_formed st'"
proof (cases "operation_name op = ''setHeaders''")
  case True
  then obtain content replace where "op = SetHeaders content replace" by (cases op) simp_all
  with c have "setHeaders self content replace st = Inr (r, st')" by simp
  from wf_setHeaders[OF wf this] show ?thesis .
next
  case False
  from call_heap[OF c False] have "heap st' = heap st" "next_addr st' = next_addr st"
    by simp_all
  from wf_same_heap[OF this wf] show ?thesis .
qed

lemma registry_ack_heap:
  "heap (registry_ack rid channel st) = heap st \<and>
   next_addr (registry_ack rid channel st) = next_addr st"
  by (simp add: registry_ack_def split: option.splits)

lemma room_unsubscribe_heap:
  "heap (room_unsubscribe room st) = heap st \<and>
   next_addr (room_unsubscribe room st) = next_addr st"
  by (simp add: room_unsubscribe_def registry_unsubscribe_def Let_def split: option.splits)

lemma tracker_step_heap:
  "heap (snd (tracker_step ev st)) = heap st \<and> next_addr (snd (tracker_step ev st)) = next_addr st"
  by (cases ev) (simp_all add: tracker_resolve_def split: option.splits)

lemma tracker_run_heap:
  "heap (snd (tracker_run evs st)) = heap st \<and> next_addr (snd (tracker_run evs st)) = next_addr st"
proof (induction evs arbitrary: st)
  case Nil
  then show ?case by simp
next
  case (Cons ev evs)
  from Cons.IH[of "snd (tracker_step ev st)"] tracker_step_heap[of ev st]
  show ?case by (simp add: case_prod_beta)
qed

lemma reachable_wf: "reachable api st \<Longrightarrow> well_formed st"
proof (induction rule: reachable.induct)
  case (start st)
  then show ?case by (rule wf_start)
next
  case (construct st k name w st')
  from wf_construct[OF construct.IH construct.hyps(2)] show ?case .
next
  case (operate st self op r st')
  from wf_call[OF operate.IH operate.hyps(2)] show ?case .
next
  case (acknowledge st rid channel)
  from registry_ack_heap[of rid channel st] acknowledge.IH show ?case
    by (simp add: wf_same_heap)
next
  case (unsubscribe st room)
  from room_unsubscribe_heap[of room st] unsubscribe.IH show ?case
    by (simp add: wf_same_heap)
next
  case (respond st evs outs st')
  from tracker_run_heap[of evs st] respond.hyps(2) respond.IH show ?case
    by (simp add: wf_same_heap)
qed

lemma setHeaders_frame:
  assumes wf: "well_formed st" and cell: "heap st w = Some (Collection name k h added)"
  shows "\<exists>st'. setHeaders w content replace st = Inr (This w, st')
     \<and> identity_of st' w = Some (name, k)
     \<and> wrapper_headers st' w =
         Some (if truthy replace then content
               else foldl (\<lambda>hs (key, v). put key v hs) (headers_at st h) content)
     \<and> (\<forall>s. session_headers st' s = session_headers st s)
     \<and> (\<forall>w'. w' \<noteq> w \<longrightarrow> wrapper_headers st' w' = wrapper_headers st w' \<and>
                           identity_of st' w' = identity_of st w')
     \<and> st'\<lparr>heap := heap st, next_addr := next_addr st\<rparr> = st"
proof (cases "truthy replace")
  case True
  let ?n = "next_addr st"
  let ?st' = "st\<lparr>heap := (heap st)(?n \<mapsto> HeadersObj content, w \<mapsto> Collection name k ?n added),
                 next_addr := Suc ?n\<rparr>"
  from wf_fresh(1)[OF wf cell] have wn: "w \<noteq> ?n" by simp
  have free: "heap st ?n = None"
  proof (cases "heap st ?n")
    case (Some c)
    from wf_fresh(1)[OF wf Some] show ?thesis by simp
  qed simp
  have at: "headers_at ?st' r = headers_at st r" if "r < ?n" for r
    using that cell by (cases "r = w") (simp_all add: headers_at_def)
  have sess: "session_headers ?st' s = session_headers st s" for s
  proof (cases "heap st s")
    case None
    then show ?thesis using wn by (simp add: session_headers_def)
  next
    case (Some c)
    from wf_fresh(1)[OF wf Some] have sn: "s \<noteq> ?n" by simp
    show ?thesis
    proof (cases c)
      case (Session hk b)
      with Some cell have sw: "s \<noteq> w" by auto
      from wf_fresh(3)[OF wf Some, of hk] Session have hk: "hk < ?n" by simp
      from Some Session sw sn have "session_headers ?st' s = Some (headers_at ?st' hk)"
        by (simp add: session_headers_def)
      moreover from Some Session have "session_headers st s = Some (headers_at st hk)"
        by (simp add: session_headers_def)
      ultimately show ?thesis using at[OF hk] by simp
    next
      case (HeadersObj kvs)
      with Some cell show ?thesis using sn by (auto simp: session_headers_def)
    next
      case (Collection n' k' h' a')
      with Some show ?thesis using sn by (auto simp: session_headers_def)
    qed
  qed
  have others: "wrapper_headers ?st' w' = wrapper_headers st w' \<and>
                identity_of ?st' w' = identity_of st w'" if "w' \<noteq> w" for w'
  proof (cases "heap st w'")
    case None
    then show ?thesis using that by (simp add: wrapper_headers_def identity_of_def)
  next
    case (Some c)
    from wf_fresh(1)[OF wf Some] have sn: "w' \<noteq> ?n" by simp
    show ?thesis
    proof (cases c)
      case (Collection n' k' h' a')
      with Some have c': "heap st w' = Some (Collection n' k' h' a')" by simp
      from wf_own(1)[OF wf c'] obtain kvs where hh: "heap st h' = Some (HeadersObj kvs)" by blast
      from wf_fresh(1)[OF wf hh] have "h' \<noteq> ?n" by simp
      moreover from hh cell have "h' \<noteq> w" by auto
      ultimately show ?thesis using c' that sn
        by (simp add: wrapper_headers_def identity_of_def headers_at_def)
    qed (use Some that sn in \<open>simp_all add: wrapper_headers_def identity_of_def\<close>)
  qed
  have "setHeaders w content replace st = Inr (This w, ?st')"
    by (rule setHeaders_replace[OF cell True])
  moreover have "identity_of ?st' w = Some (name, k)" by (simp add: identity_of_def)
  moreover have "wrapper_headers ?st' w = Some content"
    using wn by (simp add: wrapper_headers_def headers_at_def)
  moreover have "?st'\<lparr>heap := heap st, next_addr := next_addr st\<rparr> = st" by simp
  ultimately show ?thesis using True sess others by (intro exI[of _ ?st']) simp
next
  case False
  let ?new = "foldl (\<lambda>hs (key, v). put key v hs) (headers_at st h) content"
  let ?st' = "st\<lparr>heap := (heap st)(h \<mapsto> HeadersObj ?new)\<rparr>"
  from wf_own(1)[OF wf cell] obtain kvs where hh: "heap st h = Some (HeadersObj kvs)" by blast
  with cell have hw: "h \<noteq> w" by auto
  have sess: "session_headers ?st' s = session_headers st s" for s
  proof (cases "heap st s")
    case None
    with hh show ?thesis by (auto simp: session_headers_def)
  next
    case (Some c)
    show ?thesis
    proof (cases c)
      case (Session hk b)
      with Some cell have sw: "s \<noteq> w" by auto
      from Some Session hh have sh: "s \<noteq> h" by auto
      from wf_own(2)[OF wf cell sw Some] Session have "hk \<noteq> h" by simp
      then show ?thesis using Some Session sh
        by (simp add: session_headers_def headers_at_def)
    next
      case (HeadersObj kvs')
      with Some show ?thesis by (simp add: session_headers_def)
    next
      case (Collection n' k' h' a')
      with Some hh have "s \<noteq> h" by auto
      with Some Collection show ?thesis by (simp add: session_headers_def)
    qed
  qed
  have others: "wrapper_headers ?st' w' = wrapper_headers st w' \<and>
                identity_of ?st' w' = identity_of st w'" if "w' \<noteq> w" for w'
  proof (cases "heap st w'")
    case None
    with hh show ?thesis by (auto simp: wrapper_headers_def identity_of_def)
  next
    case (Some c)
    show ?thesis
    proof (cases c)
      case (Collection n' k' h' a')
      with Some have c': "heap st w' = Some (Collection n' k' h' a')" by simp
      with hh have wh: "w' \<noteq> h" by auto
      from wf_own(2)[OF wf cell that c'] have "h' \<noteq> h" by simp
      then show ?thesis using c' wh
        by (simp add: wrapper_headers_def identity_of_def headers_at_def)
    next
      case (Session hk b)
      with Some hh have "w' \<noteq> h" by auto
      with Some Session show ?thesis by (simp add: wrapper_headers_def identity_of_def)
    next
      case (HeadersObj kvs')
      with Some show ?thesis by (simp add: wrapper_headers_def identity_of_def)
    qed
  qed
  have "setHeaders w content replace st = Inr (This w, ?st')"
    by (rule setHeaders_append[OF cell False])
  moreover have "identity_of ?st' w = Some (name, k)"
    using cell hw by (simp add: identity_of_def)
  moreover have "wrapper_headers ?st' w = Some ?new"
    using cell hw by (simp add: wrapper_headers_def headers_at_def)
  moreover have "?st'\<lparr>heap := heap st, next_addr := next_addr st\<rparr> = st" by simp
  ultimately show ?thesis using False sess others by (intro exI[of _ ?st']) simp
qed


lemma session_state_no_wrappers: "no_wrappers (session_state hdrs b)"
  by (simp add: no_wrappers_def session_state_def)

lemma users_state_reachable: "reachable example_api users_state"
  by (rule reachable.construct[OF reachable.start[OF session_state_no_wrappers]
        users_state_built])






lemma call_identity:
  assumes wf: "well_formed st" and c: "call api self op st = Inr (r, st')"
    and i: "identity_of st w = Some (name, k)"
  shows "identity_of st' w = Some (name, k)"
proof (cases "operation_name op = ''setHeaders''")
  case True
  then obtain content replace where op: "op = SetHeaders content replace" by (cases op) simp_all
  with c have s: "setHeaders self content replace st = Inr (r, st')" by simp
  then obtain name' k' h added where cell: "heap st self = Some (Collection name' k' h added)"
    by (auto simp: setHeaders_def this_collection_def split: option.splits cell.splits)
  from setHeaders_frame[OF wf cell, of content replace] s
  have own: "identity_of st' self = Some (name', k')"
    and others: "\<And>w'. w' \<noteq> self \<Longrightarrow> identity_of st' w' = identity_of st w'" by auto
  show ?thesis
  proof (cases "w = self")
    case True
    with i cell own show ?thesis by (simp add: identity_of_def)
  next
    case False
    from others[OF False] i show ?thesis by simp
  qed
next
  case False
  from call_heap[OF c False] i show ?thesis by (simp add: identity_of_def)
qed

text \<open>
  C10, as amended. Every operation of the prototype other than \<open>subscribe\<close> and the
  factories \<open>documentFactory\<close>, \<open>roomFactory\<close> and \<open>dataMappingFactory\<close> returns the
  receiver itself, and no operation changes the \<open>collection\<close> and \<open>kuzzle\<close> properties of
  a collection instance.
\<close>

theorem operations_return_receiver:
  assumes r: "reachable api st" and c: "call api self op st = Inr (ret, st')"
  shows "(operation_name op \<notin> {''subscribe'', ''documentFactory'', ''roomFactory'',
                                  ''dataMappingFactory''} \<longrightarrow> ret = This self)
       \<and> (\<forall>w name k. identity_of st w = Some (name, k) \<longrightarrow> identity_of st' w = Some (name, k))"
  using call_returns_this[OF c] call_identity[OF reachable_wf[OF r] c] by blast

theorem operations_return_receiver_witness:
  "reachable example_api users_state
   \<and> (\<exists>st'. call example_api 2 (Truncate JUndefined JUndefined) users_state = Inr (This 2, st')
        \<and> identity_of st' 2 = Some (''users'', 0))"
proof -
  obtain st' where c: "call example_api 2 (Truncate JUndefined JUndefined) users_state
      = Inr (This 2, st')"
    by (simp add: truncate_def plain_request_def shift_cb_def users_state_collection Let_def)
  have i: "identity_of users_state 2 = Some (''users'', 0)"
    by (simp add: identity_of_def users_state_heap)
  from operations_return_receiver[OF users_state_reachable c] i
  have "identity_of st' 2 = Some (''users'', 0)" by blast
  with c users_state_reachable show ?thesis by blast
qed

text \<open>
  C10 as stated fails: \<open>documentFactory\<close> is an operation of the prototype other than
  \<open>subscribe\<close>, and it returns the document it builds, not the receiver.
\<close>

theorem factory_returns_document:
  "operation_name (DocumentFactory (JStr ''a'') (JObj [])) \<noteq> ''subscribe''
   \<and> call example_api 2 (DocumentFactory (JStr ''a'') (JObj [])) users_state =
       Inr (DocRet \<lparr>d_collection = 2, d_id = JStr ''a'', d_content = JObj [], d_version = None\<rparr>,
            users_state)
   \<and> DocRet \<lparr>d_collection = 2, d_id = JStr ''a'', d_content = JObj [], d_version = None\<rparr>
       \<noteq> This 2"
  by (simp add: documentFactory_def)

end
